theory Spec2Isabelle
  imports Main "HOL-Library.Log_Nat"
begin

section \<open>Python strings\<close>

text \<open>
  The module \<^verbatim>\<open>polygon/options/options.py\<close> works on Python \<^verbatim>\<open>str\<close> values. They are
  modelled as \<^typ>\<open>string\<close>, and the model is one of ASCII text, as option symbols are:
  the character classes and the case mappings below are those of Python on the code
  points 0..127 only. Python changes, classifies and counts other characters in ways the
  definitions below do not follow (\<^verbatim>\<open>upper()\<close> maps some of them to several characters),
  so what is proved of the value a function computes from the case or the class of the
  characters of a string is stated for the strings that \<open>py_isascii\<close> accepts.
\<close>

text \<open>\<^verbatim>\<open>s.isascii()\<close>.\<close>

definition py_isascii :: "string \<Rightarrow> bool" where
  "py_isascii s = list_all (\<lambda>c. (of_char c :: nat) < 128) s"

definition ascii_lowercase :: string where
  "ascii_lowercase = ''abcdefghijklmnopqrstuvwxyz''"

definition ascii_uppercase :: string where
  "ascii_uppercase = ''ABCDEFGHIJKLMNOPQRSTUVWXYZ''"

definition py_isdigit :: "char \<Rightarrow> bool" where
  "py_isdigit c = (c \<in> set ''0123456789'')"


definition py_upper_char :: "char \<Rightarrow> char" where
  "py_upper_char c =
     (case map_of (zip ascii_lowercase ascii_uppercase) c of Some d \<Rightarrow> d | None \<Rightarrow> c)"

definition py_lower_char :: "char \<Rightarrow> char" where
  "py_lower_char c =
     (case map_of (zip ascii_uppercase ascii_lowercase) c of Some d \<Rightarrow> d | None \<Rightarrow> c)"

definition py_upper :: "string \<Rightarrow> string" where
  "py_upper s = map py_upper_char s"

definition py_lower :: "string \<Rightarrow> string" where
  "py_lower s = map py_lower_char s"

text \<open>\<^verbatim>\<open>s.startswith(p)\<close>.\<close>

definition py_startswith :: "string \<Rightarrow> string \<Rightarrow> bool" where
  "py_startswith s p = (take (length p) s = p)"

section \<open>Errors\<close>

text \<open>
  Every exception the modelled functions can raise is a value. The two \<^verbatim>\<open>ValueError\<close>s the
  module raises itself are kept apart from the ones raised by the builtins:
  \<^item> \<open>ExpiryLengthError\<close>: \<^verbatim>\<open>ValueError('Expiry string must have 6 characters. ...')\<close>;
  \<^item> \<open>SymbolLengthError\<close>: \<^verbatim>\<open>ValueError('Option symbol length must at least be 15 letters. ...')\<close>;
  \<^item> \<open>ValueError\<close>: raised by \<^verbatim>\<open>int()\<close>, \<^verbatim>\<open>float()\<close> or \<^verbatim>\<open>datetime.date()\<close>;
  \<^item> \<open>IndexError\<close>: a string or list index out of range;
  \<^item> \<open>OverflowError\<close>: a conversion between \<^verbatim>\<open>int\<close> and \<^verbatim>\<open>float\<close> out of range;
  \<^item> \<open>ZeroDivisionError\<close>: a division by zero.
\<close>

datatype error =
  ExpiryLengthError | SymbolLengthError | ValueError | IndexError | OverflowError | ZeroDivisionError

section \<open>Prefix handling and format detection\<close>

text \<open>
  \<^verbatim>\<open>
  def ensure_prefix(symbol: str):
      if len(symbol) < 15:
          raise ValueError('Option symbol length must at least be 15 letters. ...')
      if symbol.upper().startswith('O:'):
          return symbol.upper()
      return f'O:{symbol.upper()}'
  \<close>
\<close>

definition ensure_prefix :: "string \<Rightarrow> error + string" where
  "ensure_prefix symbol =
     (if length symbol < 15 then Inl SymbolLengthError
      else if py_startswith (py_upper symbol) ''O:'' then Inr (py_upper symbol)
      else Inr (''O:'' @ py_upper symbol))"

text \<open>
  \<^verbatim>\<open>
  def detect_symbol_format(option_symbol: str) -> Union[str, bool]:
      if option_symbol.startswith('.') or ('_' in option_symbol):
          return 'tda'
      if option_symbol.startswith('O:') or len(option_symbol) > 15:
          return 'polygon'
      return False
  \<close>
  The result is \<open>Some\<close> of the format's name, or \<open>None\<close> for Python's \<^verbatim>\<open>False\<close>.
\<close>

definition detect_symbol_format :: "string \<Rightarrow> string option" where
  "detect_symbol_format option_symbol =
     (if py_startswith option_symbol ''.'' \<or> CHR ''_'' \<in> set option_symbol then Some ''tda''
      else if py_startswith option_symbol ''O:'' \<or> length option_symbol > 15 then Some ''polygon''
      else None)"

section \<open>Slices, indexing, padding and splitting\<close>

text \<open>
  Exceptions are propagated by \<open>py_bind\<close>: the first failing step of a function decides
  its result, as the first raised exception does in the source.
\<close>

definition py_bind :: "error + 'a \<Rightarrow> ('a \<Rightarrow> error + 'b) \<Rightarrow> error + 'b" where
  "py_bind m f = (case m of Inl e \<Rightarrow> Inl e | Inr x \<Rightarrow> f x)"

text \<open>\<^verbatim>\<open>s[i:j]\<close> for indices \<open>0 \<le> i \<le> j\<close>; a slice never raises and is cut at the end of \<open>s\<close>.\<close>

definition py_slice :: "string \<Rightarrow> nat \<Rightarrow> nat \<Rightarrow> string" where
  "py_slice s i j = take (j - i) (drop i s)"

text \<open>\<^verbatim>\<open>s[i]\<close> for \<open>0 \<le> i\<close>: a string of one character, or \<^verbatim>\<open>IndexError\<close>.\<close>

definition py_index :: "string \<Rightarrow> nat \<Rightarrow> error + string" where
  "py_index s i = (if i < length s then Inr [s ! i] else Inl IndexError)"

text \<open>\<^verbatim>\<open>xs[i]\<close> on a list, for \<open>0 \<le> i\<close>.\<close>

definition py_item :: "'a list \<Rightarrow> nat \<Rightarrow> error + 'a" where
  "py_item xs i = (if i < length xs then Inr (xs ! i) else Inl IndexError)"

text \<open>\<^verbatim>\<open>s.rjust(w, c)\<close> and \<^verbatim>\<open>s.ljust(w, c)\<close>: they pad, and never cut.\<close>

definition py_rjust :: "nat \<Rightarrow> char \<Rightarrow> string \<Rightarrow> string" where
  "py_rjust w c s = replicate (w - length s) c @ s"

definition py_ljust :: "nat \<Rightarrow> char \<Rightarrow> string \<Rightarrow> string" where
  "py_ljust w c s = s @ replicate (w - length s) c"

text \<open>\<^verbatim>\<open>s.split(sep)\<close> for a separator of one character: never empty.\<close>

fun py_split :: "char \<Rightarrow> string \<Rightarrow> string list" where
  "py_split sep [] = [[]]"
| "py_split sep (c # cs) =
     (if c = sep then [] # py_split sep cs
      else (case py_split sep cs of p # ps \<Rightarrow> (c # p) # ps | [] \<Rightarrow> [[c]]))"

text \<open>White space as \<^verbatim>\<open>int()\<close> and \<^verbatim>\<open>float()\<close> strip it: tab, LF, VT, FF, CR and space.\<close>

definition py_isspace :: "char \<Rightarrow> bool" where
  "py_isspace c = (c \<in> set [CHR 0x09, CHR 0x0A, CHR 0x0B, CHR 0x0C, CHR 0x0D, CHR 0x20])"

definition py_strip :: "string \<Rightarrow> string" where
  "py_strip s = rev (dropWhile py_isspace (rev (dropWhile py_isspace s)))"

section \<open>Python integers and their text\<close>

definition digit_char :: "nat \<Rightarrow> char" where
  "digit_char d = ''0123456789'' ! d"

definition digit_val :: "char \<Rightarrow> nat" where
  "digit_val c = (case map_of (zip ''0123456789'' [0..<10]) c of Some v \<Rightarrow> v | None \<Rightarrow> 0)"

fun digits_of_nat :: "nat \<Rightarrow> string" where
  "digits_of_nat n =
     (if n < 10 then [digit_char n] else digits_of_nat (n div 10) @ [digit_char (n mod 10)])"

declare digits_of_nat.simps [simp del]

text \<open>\<^verbatim>\<open>str(i)\<close> for an \<^verbatim>\<open>int\<close>.\<close>

definition py_str_int :: "int \<Rightarrow> string" where
  "py_str_int i = (if i < 0 then CHR ''-'' # digits_of_nat (nat (- i)) else digits_of_nat (nat i))"

definition nat_of_digits :: "string \<Rightarrow> nat" where
  "nat_of_digits ds = foldl (\<lambda>a c. 10 * a + digit_val c) 0 ds"

text \<open>An optional sign in front of a number's text.\<close>

definition split_sign :: "string \<Rightarrow> bool \<times> string" where
  "split_sign t =
     (case t of
        [] \<Rightarrow> (False, [])
      | c # r \<Rightarrow> if c = CHR ''-'' then (True, r) else if c = CHR ''+'' then (False, r) else (False, t))"

text \<open>
  The digits of an integer literal: a digit, then digits each optionally preceded by one
  underscore. The result is the digits without the underscores, or \<open>None\<close>.
\<close>

fun ungroup :: "string \<Rightarrow> string option" where
  "ungroup [] = None"
| "ungroup [c] = (if py_isdigit c then Some [c] else None)"
| "ungroup (c # d # cs) =
     (if \<not> py_isdigit c then None
      else if d = CHR ''_'' then map_option (Cons c) (ungroup cs)
      else map_option (Cons c) (ungroup (d # cs)))"

text \<open>
  \<^verbatim>\<open>int(s)\<close> for a string, base 10: surrounding white space is dropped, a sign is
  optional, and anything else but grouped decimal digits raises \<^verbatim>\<open>ValueError\<close>.
\<close>

definition py_int_of_str :: "string \<Rightarrow> error + int" where
  "py_int_of_str s =
     (case split_sign (py_strip s) of
        (neg, body) \<Rightarrow>
          (case ungroup body of
             None \<Rightarrow> Inl ValueError
           | Some ds \<Rightarrow> Inr (if neg then - int (nat_of_digits ds) else int (nat_of_digits ds))))"

section \<open>Python floats\<close>

text \<open>
  A \<^verbatim>\<open>float\<close> is an IEEE 754 binary64 number. A finite one is modelled by the rational it
  denotes (negative zero is not kept apart from zero: no modelled operation but printing
  tells them apart). Conversions to \<^verbatim>\<open>float\<close> round to the nearest binary64 number, ties to
  the even significand: \<open>round_binary64\<close> does so for a positive rational, on the grid of
  multiples of \<open>2 ^ (e - 52)\<close> where \<open>e\<close> is the binary exponent, at least \<open>-1022\<close>.
\<close>

datatype py_float = Finite rat | PosInf | NegInf | NaN

definition pow2 :: "int \<Rightarrow> rat" where
  "pow2 e = (if 0 \<le> e then 2 ^ nat e else 1 / 2 ^ nat (- e))"

definition pow10 :: "int \<Rightarrow> rat" where
  "pow10 e = (if 0 \<le> e then 10 ^ nat e else 1 / 10 ^ nat (- e))"

text \<open>The binary exponent \<open>\<lfloor>log\<^sub>2 a\<rfloor>\<close> of a positive rational.\<close>

definition floor_log2 :: "rat \<Rightarrow> int" where
  "floor_log2 a =
     (case quotient_of a of
        (n, d) \<Rightarrow> (let k = bitlen n - bitlen d in if pow2 k \<le> a then k else k - 1))"

definition round_half_even :: "rat \<Rightarrow> int" where
  "round_half_even q =
     (let f = \<lfloor>q\<rfloor>; r = q - of_int f
      in if r < 1 / 2 then f else if 1 / 2 < r then f + 1 else if even f then f else f + 1)"

definition round_binary64 :: "rat \<Rightarrow> rat" where
  "round_binary64 a =
     (let e = max (floor_log2 a) (- 1022); ulp = pow2 (e - 52)
      in of_int (round_half_even (a / ulp)) * ulp)"

text \<open>The nearest \<^verbatim>\<open>float\<close> of a rational; beyond the largest finite one it is an infinity.\<close>

definition float_of_rat :: "rat \<Rightarrow> py_float" where
  "float_of_rat q =
     (if q = 0 then Finite 0
      else (let r = round_binary64 \<bar>q\<bar>
            in if 2 ^ 1024 \<le> r then (if q < 0 then NegInf else PosInf)
               else Finite (if q < 0 then - r else r)))"

text \<open>\<^verbatim>\<open>float(i)\<close> for an \<^verbatim>\<open>int\<close>: correctly rounded, \<^verbatim>\<open>OverflowError\<close> when out of range.\<close>

definition py_float_of_int :: "int \<Rightarrow> error + py_float" where
  "py_float_of_int i =
     (case float_of_rat (of_int i) of Finite x \<Rightarrow> Inr (Finite x) | _ \<Rightarrow> Inl OverflowError)"

text \<open>
  \<^verbatim>\<open>a / b\<close> on two \<^verbatim>\<open>int\<close>s: true division, whose result is the \<^verbatim>\<open>float\<close> nearest to the
  quotient.
\<close>

definition py_truediv :: "int \<Rightarrow> int \<Rightarrow> error + py_float" where
  "py_truediv a b =
     (if b = 0 then Inl ZeroDivisionError
      else (case float_of_rat (of_int a / of_int b) of
              Finite x \<Rightarrow> Inr (Finite x)
            | _ \<Rightarrow> Inl OverflowError))"

text \<open>\<^verbatim>\<open>int(x)\<close> for a \<^verbatim>\<open>float\<close>: truncation towards zero.\<close>

definition py_int_of_float :: "py_float \<Rightarrow> error + int" where
  "py_int_of_float x =
     (case x of
        Finite q \<Rightarrow> Inr (if 0 \<le> q then \<lfloor>q\<rfloor> else - \<lfloor>- q\<rfloor>)
      | PosInf \<Rightarrow> Inl OverflowError
      | NegInf \<Rightarrow> Inl OverflowError
      | NaN \<Rightarrow> Inl ValueError)"

text \<open>\<^verbatim>\<open>i == x\<close> for an \<^verbatim>\<open>int\<close> and a \<^verbatim>\<open>float\<close>: equality of the exact values.\<close>

definition py_eq_int_float :: "int \<Rightarrow> py_float \<Rightarrow> bool" where
  "py_eq_int_float i x = (case x of Finite q \<Rightarrow> of_int i = q | _ \<Rightarrow> False)"

text \<open>
  The text of a float literal, for \<^verbatim>\<open>float(s)\<close>. An underscore may stand only between two
  digits; \<open>ungroup_float\<close> checks that and removes the underscores (\<open>prev\<close> is the
  character before).
\<close>

fun ungroup_float :: "char option \<Rightarrow> string \<Rightarrow> string option" where
  "ungroup_float prev [] = Some []"
| "ungroup_float prev (c # cs) =
     (if c = CHR ''_'' then
        (case (prev, cs) of
           (Some p, n # _) \<Rightarrow>
             if py_isdigit p \<and> py_isdigit n then ungroup_float (Some c) cs else None
         | _ \<Rightarrow> None)
      else map_option (Cons c) (ungroup_float (Some c) cs))"

text \<open>
  An unsigned decimal literal: digits, an optional point and digits (a digit on one side
  of the point at least), an optional exponent \<^verbatim>\<open>e\<close> or \<^verbatim>\<open>E\<close> with an optional sign and
  digits. The result is its exact value.
\<close>

definition decimal_literal :: "string \<Rightarrow> rat option" where
  "decimal_literal body =
     (let ip = takeWhile py_isdigit body;
          r1 = dropWhile py_isdigit body;
          fp = (case r1 of [] \<Rightarrow> [] | c # r \<Rightarrow> if c = CHR ''.'' then takeWhile py_isdigit r else []);
          r2 = (case r1 of [] \<Rightarrow> [] | c # r \<Rightarrow> if c = CHR ''.'' then dropWhile py_isdigit r else r1);
          m = of_nat (nat_of_digits (ip @ fp)) / 10 ^ length fp
      in if ip = [] \<and> fp = [] then None
         else (case r2 of
                 [] \<Rightarrow> Some m
               | c # r \<Rightarrow>
                   if c = CHR ''e'' \<or> c = CHR ''E'' then
                     (case split_sign r of
                        (eneg, ds) \<Rightarrow>
                          if ds \<noteq> [] \<and> list_all py_isdigit ds
                          then Some (m * pow10 (if eneg then - int (nat_of_digits ds)
                                                 else int (nat_of_digits ds)))
                          else None)
                   else None))"

text \<open>
  \<^verbatim>\<open>float(s)\<close> for a string: surrounding white space is dropped; a sign is optional;
  \<^verbatim>\<open>inf\<close>, \<^verbatim>\<open>infinity\<close> and \<^verbatim>\<open>nan\<close> are read in any case; a decimal literal is rounded to
  the nearest \<^verbatim>\<open>float\<close>; anything else raises \<^verbatim>\<open>ValueError\<close>.
\<close>

definition py_float_of_str :: "string \<Rightarrow> error + py_float" where
  "py_float_of_str s =
     (case ungroup_float None (py_strip s) of
        None \<Rightarrow> Inl ValueError
      | Some t \<Rightarrow>
          (case split_sign t of
             (neg, body) \<Rightarrow>
               if py_lower body = ''inf'' \<or> py_lower body = ''infinity''
               then Inr (if neg then NegInf else PosInf)
               else if py_lower body = ''nan'' then Inr NaN
               else (case decimal_literal body of
                       None \<Rightarrow> Inl ValueError
                     | Some q \<Rightarrow> Inr (float_of_rat (if neg then - q else q)))))"

section \<open>The strike argument\<close>

text \<open>
  The builders take the strike price as a single number; \<^verbatim>\<open>str()\<close>, \<^verbatim>\<open>int()\<close> and
  \<^verbatim>\<open>float()\<close> are all they apply to it, so an \<^verbatim>\<open>int\<close>, a \<^verbatim>\<open>float\<close> and a \<^verbatim>\<open>str\<close> are
  the values modelled.

  \<^verbatim>\<open>str(x)\<close> of a \<^verbatim>\<open>float\<close> is the shortest decimal text that reads back as \<open>x\<close>, as
  CPython's \<^verbatim>\<open>repr\<close> computes it. The model does not compute it: the functions that print
  a number take the printing of floats as their first argument \<open>float_str\<close>, and what is
  proved of them holds for every such function.
\<close>

datatype py_num = PyInt int | PyFloat py_float | PyStr string

definition py_str :: "(py_float \<Rightarrow> string) \<Rightarrow> py_num \<Rightarrow> string" where
  "py_str float_str v =
     (case v of PyInt i \<Rightarrow> py_str_int i | PyFloat x \<Rightarrow> float_str x | PyStr s \<Rightarrow> s)"

definition py_int :: "py_num \<Rightarrow> error + int" where
  "py_int v =
     (case v of PyInt i \<Rightarrow> Inr i | PyFloat x \<Rightarrow> py_int_of_float x | PyStr s \<Rightarrow> py_int_of_str s)"

definition py_float :: "py_num \<Rightarrow> error + py_float" where
  "py_float v =
     (case v of PyInt i \<Rightarrow> py_float_of_int i | PyFloat x \<Rightarrow> Inr x | PyStr s \<Rightarrow> py_float_of_str s)"

section \<open>Calendar dates\<close>

text \<open>
  A \<^verbatim>\<open>datetime.date\<close> (or \<^verbatim>\<open>datetime.datetime\<close>, whose time of day the module never
  reads). The constructor \<^verbatim>\<open>datetime.date(y, m, d)\<close> raises \<^verbatim>\<open>ValueError\<close> unless the
  triple is a date of the proleptic Gregorian calendar in the years 1 to 9999.
\<close>

record date =
  year :: nat
  month :: nat
  day :: nat

definition is_leap :: "nat \<Rightarrow> bool" where
  "is_leap y = (y mod 4 = 0 \<and> (y mod 100 \<noteq> 0 \<or> y mod 400 = 0))"

definition days_in_month :: "nat \<Rightarrow> nat \<Rightarrow> nat" where
  "days_in_month y m =
     (if m = 2 then (if is_leap y then 29 else 28)
      else if m = 4 \<or> m = 6 \<or> m = 9 \<or> m = 11 then 30 else 31)"

definition valid_date :: "date \<Rightarrow> bool" where
  "valid_date dt =
     (1 \<le> year dt \<and> year dt \<le> 9999 \<and> 1 \<le> month dt \<and> month dt \<le> 12 \<and>
      1 \<le> day dt \<and> day dt \<le> days_in_month (year dt) (month dt))"

definition py_date :: "int \<Rightarrow> int \<Rightarrow> int \<Rightarrow> error + date" where
  "py_date y m d =
     (if 0 \<le> y \<and> 0 \<le> m \<and> 0 \<le> d \<and> valid_date \<lparr>year = nat y, month = nat m, day = nat d\<rparr>
      then Inr \<lparr>year = nat y, month = nat m, day = nat d\<rparr>
      else Inl ValueError)"

text \<open>Two digits, as \<^verbatim>\<open>%y\<close>, \<^verbatim>\<open>%m\<close> and \<^verbatim>\<open>%d\<close> print them.\<close>

definition two_digits :: "nat \<Rightarrow> string" where
  "two_digits n = py_rjust 2 CHR ''0'' (digits_of_nat n)"

text \<open>\<^verbatim>\<open>dt.strftime('%y%m%d')\<close> and \<^verbatim>\<open>dt.strftime('%m%d%y')\<close>.\<close>

definition strftime_yymmdd :: "date \<Rightarrow> string" where
  "strftime_yymmdd dt = two_digits (year dt mod 100) @ two_digits (month dt) @ two_digits (day dt)"

definition strftime_mmddyy :: "date \<Rightarrow> string" where
  "strftime_mmddyy dt = two_digits (month dt) @ two_digits (day dt) @ two_digits (year dt mod 100)"

section \<open>Building option symbols\<close>

text \<open>The \<open>expiry\<close> argument of the builders: a date object or a string.\<close>

datatype expiry_arg = ExpiryDate date | ExpiryStr string

text \<open>
  \<^verbatim>\<open>
  def build_option_symbol(underlying_symbol, expiry, call_or_put, strike_price, prefix_o=False):
      if isinstance(expiry, (datetime.datetime, datetime.date)):
          expiry = expiry.strftime('%y%m%d')
      elif isinstance(expiry, str) and len(expiry) != 6:
          raise ValueError('Expiry string must have 6 characters. Format is: YYMMDD')
      call_or_put = 'C' if call_or_put.lower() in ['c', 'call'] else 'P'
      if '.' in str(strike_price):
          strike, strike_dec = str(strike_price).split('.')[0].rjust(5, '0'), str(
              strike_price).split('.')[1].ljust(3, '0')[:3]
      else:
          strike, strike_dec = str(int(strike_price)).rjust(5, '0'), '000'
      if prefix_o:
          return f'O:{underlying_symbol.upper()}{expiry}{call_or_put}{strike}{strike_dec}'
      return f'{underlying_symbol.upper()}{expiry}{call_or_put}{strike}{strike_dec}'
  \<close>
\<close>

text \<open>
  The letter both builders print for the option type: the expression
  \<^verbatim>\<open>'C' if call_or_put.lower() in ['c', 'call'] else 'P'\<close>.
\<close>

definition type_letter :: "string \<Rightarrow> string" where
  "type_letter cp = (if py_lower cp = ''c'' \<or> py_lower cp = ''call'' then ''C'' else ''P'')"

text \<open>
  The text of the strike, in two parts: the \<^verbatim>\<open>if '.' in str(strike_price)\<close> statement of
  \<^verbatim>\<open>build_option_symbol\<close>, which binds \<^verbatim>\<open>strike\<close> and \<^verbatim>\<open>strike_dec\<close>.
\<close>

definition strike_digits :: "(py_float \<Rightarrow> string) \<Rightarrow> py_num \<Rightarrow> error + string \<times> string" where
  "strike_digits float_str strike_price =
     (if CHR ''.'' \<in> set (py_str float_str strike_price) then
        py_bind (py_item (py_split CHR ''.'' (py_str float_str strike_price)) 0) (\<lambda>p0.
        py_bind (py_item (py_split CHR ''.'' (py_str float_str strike_price)) 1) (\<lambda>p1.
          Inr (py_rjust 5 CHR ''0'' p0, take 3 (py_ljust 3 CHR ''0'' p1))))
      else
        py_bind (py_int strike_price) (\<lambda>i.
          Inr (py_rjust 5 CHR ''0'' (py_str_int i), ''000'')))"

definition build_option_symbol ::
  "(py_float \<Rightarrow> string) \<Rightarrow> string \<Rightarrow> expiry_arg \<Rightarrow> string \<Rightarrow> py_num \<Rightarrow> bool \<Rightarrow> error + string" where
  "build_option_symbol float_str underlying_symbol expiry call_or_put strike_price prefix_o =
     py_bind
       (case expiry of
          ExpiryDate dt \<Rightarrow> Inr (strftime_yymmdd dt)
        | ExpiryStr s \<Rightarrow> if length s \<noteq> 6 then Inl ExpiryLengthError else Inr s)
       (\<lambda>expiry'.
          let call_or_put' =
                (if py_lower call_or_put = ''c'' \<or> py_lower call_or_put = ''call''
                 then ''C'' else ''P'')
          in py_bind (strike_digits float_str strike_price)
               (\<lambda>(strike, strike_dec).
                  if prefix_o
                  then Inr (''O:'' @ py_upper underlying_symbol @ expiry' @ call_or_put' @
                            strike @ strike_dec)
                  else Inr (py_upper underlying_symbol @ expiry' @ call_or_put' @
                            strike @ strike_dec)))"

text \<open>
  \<^verbatim>\<open>
  def build_option_symbol_for_tda(underlying_symbol, expiry, call_or_put, strike_price,
                                  format_='underscore'):
      if isinstance(expiry, (datetime.date, datetime.datetime)):
          expiry = expiry.strftime('%m%d%y')
      call_or_put = 'C' if call_or_put.lower() in ['c', 'call'] else 'P'
      strike_price = int(float(strike_price)) if int(float(strike_price)) == float(strike_price) \
          else strike_price
      if format_ == 'dot':
          return f'.{underlying_symbol}{expiry}{call_or_put}{strike_price}'
      return f'{underlying_symbol}_{expiry}{call_or_put}{strike_price}'
  \<close>
\<close>

definition build_option_symbol_for_tda ::
  "(py_float \<Rightarrow> string) \<Rightarrow> string \<Rightarrow> expiry_arg \<Rightarrow> string \<Rightarrow> py_num \<Rightarrow> string \<Rightarrow> error + string" where
  "build_option_symbol_for_tda float_str underlying_symbol expiry call_or_put strike_price fmt =
     (let expiry' = (case expiry of ExpiryDate dt \<Rightarrow> strftime_mmddyy dt | ExpiryStr s \<Rightarrow> s);
          call_or_put' =
            (if py_lower call_or_put = ''c'' \<or> py_lower call_or_put = ''call''
             then ''C'' else ''P'')
      in py_bind (py_float strike_price) (\<lambda>x.
         py_bind (py_int_of_float x) (\<lambda>i.
           let strike_price' = (if py_eq_int_float i x then PyInt i else strike_price)
           in if fmt = ''dot''
              then Inr (''.'' @ underlying_symbol @ expiry' @ call_or_put' @
                        py_str float_str strike_price')
              else Inr (underlying_symbol @ ''_'' @ expiry' @ call_or_put' @
                        py_str float_str strike_price'))))"

section \<open>Parsing option symbols\<close>

text \<open>
  The attributes of an \<^verbatim>\<open>OptionSymbol\<close> object; \<open>raw_expiry\<close> is the attribute
  \<^verbatim>\<open>_expiry\<close>. The parsers are modelled with their default arguments
  \<^verbatim>\<open>expiry_format='date'\<close> (the expiry is a date object) and \<^verbatim>\<open>output_format='object'\<close>
  (the object itself is returned, not a list or dict of its attributes).
\<close>

record OptionSymbol =
  underlying_symbol :: string
  raw_expiry :: string
  expiry :: date
  call_or_put :: string
  strike_price :: py_num
  option_symbol :: string

text \<open>
  The constructor with \<^verbatim>\<open>symbol_format='polygon'\<close>. The century comes from the clock:
  \<open>today_Y\<close> stands for \<^verbatim>\<open>datetime.date.today().strftime('%Y')\<close>.
  \<^verbatim>\<open>
  if option_symbol.startswith('O:'):
      option_symbol = option_symbol[2:]
  self.underlying_symbol = option_symbol[:-15]
  _len = len(self.underlying_symbol)
  self.underlying_symbol = ''.join([x for x in self.underlying_symbol if not x.isdigit()])
  self._expiry = option_symbol[_len:_len + 6]
  self.expiry = datetime.date(int(datetime.date.today().strftime('%Y')[:2] + self._expiry[:2]),
                              int(self._expiry[2:4]), int(self._expiry[4:6]))
  self.call_or_put = option_symbol[_len + 6].upper()
  self.strike_price = int(option_symbol[_len + 7:]) / 1000
  self.option_symbol = f'{self.underlying_symbol}{option_symbol[_len:]}'
  \<close>
\<close>

definition OptionSymbol_polygon :: "string \<Rightarrow> string \<Rightarrow> error + OptionSymbol" where
  "OptionSymbol_polygon today_Y symbol =
     (let s = (if py_startswith symbol ''O:'' then drop 2 symbol else symbol);
          head = take (length s - 15) s;
          len = length head;
          underlying = filter (\<lambda>x. \<not> py_isdigit x) head;
          exp = py_slice s len (len + 6)
      in py_bind (py_int_of_str (take 2 today_Y @ take 2 exp)) (\<lambda>y.
         py_bind (py_int_of_str (py_slice exp 2 4)) (\<lambda>m.
         py_bind (py_int_of_str (py_slice exp 4 6)) (\<lambda>d.
         py_bind (py_date y m d) (\<lambda>dt.
         py_bind (py_index s (len + 6)) (\<lambda>c.
         py_bind (py_int_of_str (drop (len + 7) s)) (\<lambda>n.
         py_bind (py_truediv n 1000) (\<lambda>x.
           Inr \<lparr>underlying_symbol = underlying, raw_expiry = exp, expiry = dt,
                call_or_put = py_upper c, strike_price = PyFloat x,
                option_symbol = underlying @ drop len s\<rparr>))))))))"

text \<open>
  \<^verbatim>\<open>
  def parse_option_symbol(option_symbol, output_format='object', expiry_format='date'):
      _obj = OptionSymbol(option_symbol, expiry_format)
      ...
      return _obj
  \<close>
\<close>

definition parse_option_symbol :: "string \<Rightarrow> string \<Rightarrow> error + OptionSymbol" where
  "parse_option_symbol today_Y symbol = OptionSymbol_polygon today_Y symbol"





section \<open>Facts about strings\<close>

lemma py_upper_char_idem: "py_upper_char (py_upper_char c) = py_upper_char c"
  by (simp add: py_upper_char_def ascii_lowercase_def ascii_uppercase_def)

lemma py_upper_char_not_lower: "py_upper_char c \<notin> set ascii_lowercase"
  by (simp add: py_upper_char_def ascii_lowercase_def ascii_uppercase_def)

lemma py_upper_idem: "py_upper (py_upper s) = py_upper s"
  by (simp add: py_upper_def py_upper_char_idem)

lemma length_py_upper: "length (py_upper s) = length s"
  by (simp add: py_upper_def)


lemma py_upper_marker: "py_upper ''O:'' = ''O:''"
  by (simp add: py_upper_def py_upper_char_def ascii_lowercase_def ascii_uppercase_def)

lemma py_startswith_iff: "py_startswith s p \<longleftrightarrow> (\<exists>t. s = p @ t)"
proof
  assume "py_startswith s p"
  then have "s = p @ drop (length p) s"
    unfolding py_startswith_def by (metis append_take_drop_id)
  then show "\<exists>t. s = p @ t" ..
next
  assume "\<exists>t. s = p @ t"
  then show "py_startswith s p"
    by (auto simp: py_startswith_def)
qed

lemma upper_starts_marker:
  "py_startswith (py_upper s) ''O:'' \<longleftrightarrow>
     (\<exists>c t. s = c # CHR '':'' # t \<and> (c = CHR ''o'' \<or> c = CHR ''O''))"
proof (cases s)
  case Nil
  then show ?thesis by (simp add: py_startswith_def py_upper_def)
next
  case (Cons a s')
  show ?thesis
  proof (cases s')
    case Nil
    with Cons show ?thesis by (simp add: py_startswith_def py_upper_def)
  next
    case (Cons b t)
    have a: "py_upper_char a = CHR ''O'' \<longleftrightarrow> a = CHR ''o'' \<or> a = CHR ''O''"
      by (simp add: py_upper_char_def ascii_lowercase_def ascii_uppercase_def)
    have b: "py_upper_char b = CHR '':'' \<longleftrightarrow> b = CHR '':''"
      by (simp add: py_upper_char_def ascii_lowercase_def ascii_uppercase_def)
    from \<open>s = a # s'\<close> Cons show ?thesis
      by (auto simp: py_startswith_def py_upper_def a b)
  qed
qed

lemma py_upper_char_cases: "py_upper_char c = c \<or> py_upper_char c \<in> set ascii_uppercase"
  by (simp add: py_upper_char_def ascii_lowercase_def ascii_uppercase_def)

lemma ascii_uppercase_ascii: "d \<in> set ascii_uppercase \<Longrightarrow> (of_char d :: nat) < 128"
  by (auto simp: ascii_uppercase_def)

lemma py_upper_char_ascii: "(of_char c :: nat) < 128 \<Longrightarrow> (of_char (py_upper_char c) :: nat) < 128"
  using py_upper_char_cases [of c] ascii_uppercase_ascii [of "py_upper_char c"] by auto

lemma py_upper_ascii: "py_isascii s \<Longrightarrow> py_isascii (py_upper s)"
  by (induction s) (simp_all add: py_isascii_def py_upper_def py_upper_char_ascii)

section \<open>Facts about splitting, digits and dates\<close>

lemma py_bind_Inl [simp]: "py_bind (Inl e) f = Inl e"
  by (simp add: py_bind_def)

lemma py_bind_Inr [simp]: "py_bind (Inr x) f = f x"
  by (simp add: py_bind_def)

lemma replicate_small:
  "replicate 1 x = [x]" "replicate 2 x = [x, x]" "replicate 3 x = [x, x, x]"
  "replicate 4 x = [x, x, x, x]" "replicate 5 x = [x, x, x, x, x]"
  by (simp_all add: eval_nat_numeral)

lemma py_split_no_sep: "sep \<notin> set a \<Longrightarrow> py_split sep a = [a]"
  by (induction a) auto

lemma py_split_append:
  "sep \<notin> set a \<Longrightarrow> py_split sep (a @ sep # b) = a # py_split sep b"
  by (induction a) auto

lemma py_split_two:
  assumes "sep \<notin> set a" "sep \<notin> set b"
  shows "py_split sep (a @ sep # b) = [a, b]"
  using assms by (simp add: py_split_append py_split_no_sep)

lemma digit_char_isdigit: "d < 10 \<Longrightarrow> py_isdigit (digit_char d)"
proof -
  assume "d < 10"
  then have "d \<in> {0,1,2,3,4,5,6,7,8,9}" by auto
  then show ?thesis
    by (auto simp: digit_char_def py_isdigit_def)
qed

lemma digit_val_char: "d < 10 \<Longrightarrow> digit_val (digit_char d) = d"
proof -
  assume "d < 10"
  then have "d \<in> {0,1,2,3,4,5,6,7,8,9}" by auto
  then show ?thesis
    by (auto simp: digit_char_def digit_val_def upt_conv_Cons)
qed

lemma digit_val_zero: "digit_val CHR ''0'' = 0"
  by (simp add: digit_val_def upt_conv_Cons)

lemma isdigit_zero: "py_isdigit CHR ''0''"
  by (simp add: py_isdigit_def)

lemma digits_of_nat_isdigit: "list_all py_isdigit (digits_of_nat n)"
proof (induction n rule: digits_of_nat.induct)
  case (1 n)
  show ?case
  proof (cases "n < 10")
    case True
    then show ?thesis by (simp add: digits_of_nat.simps [of n] digit_char_isdigit)
  next
    case False
    with 1 show ?thesis
      by (simp add: digits_of_nat.simps [of n] digit_char_isdigit)
  qed
qed

lemma digits_of_nat_nonempty: "digits_of_nat n \<noteq> []"
  by (subst digits_of_nat.simps) simp

lemma nat_of_digits_snoc: "nat_of_digits (ds @ [c]) = 10 * nat_of_digits ds + digit_val c"
  by (simp add: nat_of_digits_def)

lemma nat_of_digits_of_nat: "nat_of_digits (digits_of_nat n) = n"
proof (induction n rule: digits_of_nat.induct)
  case (1 n)
  show ?case
  proof (cases "n < 10")
    case True
    then show ?thesis
      by (simp add: digits_of_nat.simps [of n] nat_of_digits_def digit_val_char)
  next
    case False
    with 1 show ?thesis
      by (simp add: digits_of_nat.simps [of n] nat_of_digits_snoc digit_val_char)
  qed
qed

lemma length_digits_of_nat: "0 < k \<Longrightarrow> n < 10 ^ k \<Longrightarrow> length (digits_of_nat n) \<le> k"
proof (induction n arbitrary: k rule: digits_of_nat.induct)
  case (1 n)
  show ?case
  proof (cases "n < 10")
    case True
    with 1(2) show ?thesis by (simp add: digits_of_nat.simps [of n])
  next
    case False
    then obtain j where k: "k = Suc j" and j: "0 < j"
      using 1(2,3) by (cases k; cases "k - 1") auto
    have "n div 10 < 10 ^ j"
      using 1(3) k by (simp add: less_mult_imp_div_less mult.commute)
    with 1(1) [OF False j] have "length (digits_of_nat (n div 10)) \<le> j" .
    with False k show ?thesis by (simp add: digits_of_nat.simps [of n])
  qed
qed

lemma nat_of_digits_append:
  "nat_of_digits (a @ b) = nat_of_digits a * 10 ^ length b + nat_of_digits b"
proof (induction b rule: rev_induct)
  case Nil
  show ?case by (simp add: nat_of_digits_def)
next
  case (snoc c b)
  have "nat_of_digits (a @ b @ [c]) = 10 * nat_of_digits (a @ b) + digit_val c"
    using nat_of_digits_snoc [of "a @ b" c] by simp
  with snoc show ?case
    by (simp add: nat_of_digits_snoc algebra_simps)
qed

lemma nat_of_digits_zeros: "nat_of_digits (replicate j CHR ''0'') = 0"
proof (induction j)
  case 0
  show ?case by (simp add: nat_of_digits_def)
next
  case (Suc j)
  have "replicate (Suc j) CHR ''0'' = replicate j CHR ''0'' @ ''0''"
    by (simp add: replicate_append_same)
  with Suc show ?case
    by (simp only: nat_of_digits_snoc digit_val_zero)
qed

lemma nat_of_digits_pad: "nat_of_digits (replicate j CHR ''0'' @ ds) = nat_of_digits ds"
  by (simp add: nat_of_digits_append nat_of_digits_zeros)

lemma isdigit_not_dot: "py_isdigit c \<Longrightarrow> c \<noteq> CHR ''.''"
  by (auto simp: py_isdigit_def)

lemma digits_no_dot: "list_all py_isdigit ds \<Longrightarrow> CHR ''.'' \<notin> set ds"
  by (auto simp: list_all_iff dest: isdigit_not_dot)

lemma py_str_int_no_dot: "CHR ''.'' \<notin> set (py_str_int i)"
  using digits_no_dot [OF digits_of_nat_isdigit] by (simp add: py_str_int_def)

lemma two_digits_eq:
  assumes "n < 100"
  shows "two_digits n = [digit_char (n div 10), digit_char (n mod 10)]"
proof (cases "n < 10")
  case True
  then show ?thesis
    by (simp add: two_digits_def py_rjust_def digits_of_nat.simps [of n] digit_char_def)
next
  case False
  with assms have "n div 10 < 10" by simp
  with False show ?thesis
    by (simp add: two_digits_def py_rjust_def digits_of_nat.simps [of n]
        digits_of_nat.simps [of "n div 10"])
qed

lemma valid_date_bounds:
  assumes "valid_date dt"
  shows "month dt < 100" "day dt < 100" "1 \<le> month dt" "1 \<le> day dt" "year dt \<le> 9999"
proof -
  have "days_in_month (year dt) (month dt) \<le> 31"
    by (simp add: days_in_month_def)
  with assms show "month dt < 100" "day dt < 100" "1 \<le> month dt" "1 \<le> day dt" "year dt \<le> 9999"
    by (auto simp: valid_date_def)
qed

section \<open>Facts about the builders\<close>

lemma strike_digits_point:
  assumes "py_str fs k = ip @ CHR ''.'' # fp" "CHR ''.'' \<notin> set ip" "CHR ''.'' \<notin> set fp"
  shows "strike_digits fs k =
           Inr (replicate (5 - length ip) CHR ''0'' @ ip,
                take 3 (fp @ replicate (3 - length fp) CHR ''0''))"
  using assms by (simp add: strike_digits_def py_split_two py_item_def py_rjust_def py_ljust_def)

lemma strike_digits_whole:
  assumes "CHR ''.'' \<notin> set (py_str fs k)" "py_int k = Inr n"
  shows "strike_digits fs k =
           Inr (replicate (5 - length (py_str_int n)) CHR ''0'' @ py_str_int n, ''000'')"
  using assms by (simp add: strike_digits_def py_rjust_def)

lemma strike_digits_int:
  "strike_digits fs (PyInt n) =
     Inr (replicate (5 - length (py_str_int n)) CHR ''0'' @ py_str_int n, ''000'')"
  by (rule strike_digits_whole) (simp_all add: py_str_def py_int_def py_str_int_no_dot)

lemma strike_digits_no_expiry_error: "strike_digits fs k \<noteq> Inl ExpiryLengthError"
  by (auto simp: strike_digits_def py_item_def py_bind_def py_int_def py_int_of_float_def
      py_int_of_str_def split: sum.splits py_num.splits py_float.splits prod.splits option.splits)

lemma build_option_symbol_unfold:
  "build_option_symbol fs u e cp k p =
     py_bind (case e of ExpiryDate dt \<Rightarrow> Inr (strftime_yymmdd dt)
              | ExpiryStr s \<Rightarrow> if length s \<noteq> 6 then Inl ExpiryLengthError else Inr s)
       (\<lambda>x. py_bind (strike_digits fs k)
          (\<lambda>(a, b). Inr ((if p then ''O:'' else []) @ py_upper u @ x @ type_letter cp @ a @ b)))"
  by (cases e; cases "strike_digits fs k")
     (auto simp: build_option_symbol_def type_letter_def Let_def)

lemma build_option_symbol_for_tda_unfold:
  "build_option_symbol_for_tda fs u e cp k fmt =
     py_bind (py_float k) (\<lambda>x. py_bind (py_int_of_float x) (\<lambda>i.
       Inr ((if fmt = ''dot'' then ''.'' @ u else u @ ''_'') @
            (case e of ExpiryDate dt \<Rightarrow> strftime_mmddyy dt | ExpiryStr s \<Rightarrow> s) @
            type_letter cp @
            py_str fs (if py_eq_int_float i x then PyInt i else k))))"
  by (cases "py_float k"; cases e)
     (auto simp: build_option_symbol_for_tda_def type_letter_def Let_def py_bind_def
       split: sum.splits)

section \<open>Facts about floats\<close>

lemma pow2_power_int: "pow2 e = power_int 2 e"
  by (simp add: pow2_def power_int_def power_one_over inverse_eq_divide)

lemma pow2_pos: "0 < pow2 e"
  by (simp add: pow2_power_int)

lemma pow2_add: "pow2 (i + j) = pow2 i * pow2 j"
  by (simp add: pow2_power_int power_int_add)

lemma pow2_diff: "pow2 (i - j) = pow2 i / pow2 j"
  by (simp add: pow2_power_int power_int_diff)

lemma pow2_mono: "i \<le> j \<Longrightarrow> pow2 i \<le> pow2 j"
  by (simp add: pow2_power_int power_int_increasing)

lemma pow2_strict_mono: "i < j \<Longrightarrow> pow2 i < pow2 j"
  by (simp add: pow2_power_int power_int_strict_increasing)

lemma pow2_le_iff: "pow2 i \<le> pow2 j \<longleftrightarrow> i \<le> j"
  using pow2_mono pow2_strict_mono by (metis linorder_not_less)

lemma pow2_less_iff: "pow2 i < pow2 j \<longleftrightarrow> i < j"
  using pow2_mono pow2_strict_mono by (metis linorder_not_less)

lemma pow2_nat: "pow2 (int n) = 2 ^ n"
  by (simp add: pow2_def)

lemma pow2_0 [simp]: "pow2 0 = 1"
  by (simp add: pow2_def)

lemma bitlen_pow2_bounds:
  assumes "0 < n"
  shows "pow2 (bitlen n - 1) \<le> of_int n" "of_int n < pow2 (bitlen n)"
proof -
  from bitlen_bounds [OF assms]
  have lo: "2 ^ nat (bitlen n - 1) \<le> n" and hi: "n < 2 ^ nat (bitlen n)"
    by simp_all
  have b: "1 \<le> bitlen n"
    using assms bitlen_eq_zero_iff [of n] bitlen_nonneg [of n] by linarith
  have "(of_int (2 ^ nat (bitlen n - 1)) :: rat) \<le> of_int n"
    using lo by (simp only: of_int_le_iff)
  then show "pow2 (bitlen n - 1) \<le> of_int n"
    using b by (simp add: pow2_def)
  have "(of_int n :: rat) < of_int (2 ^ nat (bitlen n))"
    using hi by (simp only: of_int_less_iff)
  then show "of_int n < pow2 (bitlen n)"
    using b by (simp add: pow2_def)
qed

lemma floor_log2_bounds:
  assumes "0 < a"
  shows "pow2 (floor_log2 a) \<le> a" "a < pow2 (floor_log2 a + 1)"
proof -
  obtain n d where q: "quotient_of a = (n, d)" by (cases "quotient_of a")
  then have d: "0 < d" and a: "a = of_int n / of_int d"
    by (simp_all add: quotient_of_denom_pos quotient_of_div)
  with assms have n: "0 < n"
    by (simp add: zero_less_divide_iff)
  define k where "k = bitlen n - bitlen d"
  note nb = bitlen_pow2_bounds [OF n] and db = bitlen_pow2_bounds [OF d]
  have dpos: "(0::rat) < of_int d" using d by simp
  have "pow2 (k - 1) = pow2 (bitlen n - 1) / pow2 (bitlen d)"
    by (simp add: k_def pow2_diff [symmetric] algebra_simps)
  also have "\<dots> \<le> of_int n / of_int d"
    using nb(1) db(2) dpos pow2_pos [of "bitlen n - 1"]
    by (intro frac_le) simp_all
  finally have lo: "pow2 (k - 1) \<le> a" by (simp add: a)
  have "a = of_int n / of_int d" by (rule a)
  also have "\<dots> < pow2 (bitlen n) / pow2 (bitlen d - 1)"
    using nb(2) db(1) pow2_pos [of "bitlen d - 1"] n
    by (intro frac_less) simp_all
  also have "\<dots> = pow2 (k + 1)"
    by (simp add: k_def pow2_diff [symmetric] algebra_simps)
  finally have hi: "a < pow2 (k + 1)" .
  have fl: "floor_log2 a = (if pow2 k \<le> a then k else k - 1)"
    by (simp add: floor_log2_def q k_def Let_def)
  show "pow2 (floor_log2 a) \<le> a"
    using lo by (simp add: fl)
  show "a < pow2 (floor_log2 a + 1)"
    using hi by (auto simp: fl)
qed

lemma floor_log2_ge: "0 < a \<Longrightarrow> pow2 e \<le> a \<Longrightarrow> e \<le> floor_log2 a"
  using floor_log2_bounds(2) [of a] pow2_less_iff [of e "floor_log2 a + 1"] by simp

lemma floor_log2_le: "0 < a \<Longrightarrow> a < pow2 (e + 1) \<Longrightarrow> floor_log2 a \<le> e"
  using floor_log2_bounds(1) [of a] pow2_less_iff [of "floor_log2 a" "e + 1"] by simp

lemma round_half_even_int: "round_half_even (of_int z) = z"
  by (simp add: round_half_even_def)

lemma round_half_even_mono_ge: "of_int z \<le> q \<Longrightarrow> z \<le> round_half_even q"
proof -
  assume "of_int z \<le> q"
  then have "z \<le> \<lfloor>q\<rfloor>" by (simp add: le_floor_iff)
  then show ?thesis by (simp add: round_half_even_def Let_def)
qed

lemma round_half_even_mono_le: "q \<le> of_int z \<Longrightarrow> round_half_even q \<le> z"
proof -
  assume q: "q \<le> of_int z"
  show ?thesis
  proof (cases "q = of_int z")
    case True
    then show ?thesis by (simp add: round_half_even_int)
  next
    case False
    with q have "q < of_int z" by simp
    then have "\<lfloor>q\<rfloor> < z" by (simp add: floor_less_iff)
    then show ?thesis by (simp add: round_half_even_def Let_def)
  qed
qed

lemma round_half_even_le: "of_int (round_half_even q) \<le> q + 1"
proof -
  have "round_half_even q \<le> \<lfloor>q\<rfloor> + 1"
    by (simp add: round_half_even_def Let_def)
  then have "(of_int (round_half_even q) :: rat) \<le> of_int (\<lfloor>q\<rfloor> + 1)"
    by (simp only: of_int_le_iff)
  also have "\<dots> \<le> q + 1" by simp
  finally show ?thesis .
qed

lemma round_binary64_grid:
  assumes "0 < a"
  obtains m e where "round_binary64 a = of_int m * pow2 (e - 52)" "0 \<le> m" "m \<le> 2 ^ 53"
    "- 1022 \<le> e" "2 ^ 52 \<le> m \<or> e = - 1022"
proof -
  define e where "e = max (floor_log2 a) (- 1022)"
  define u where "u = pow2 (e - 52)"
  define m where "m = round_half_even (a / u)"
  have u: "0 < u" by (simp add: u_def pow2_pos)
  have r: "round_binary64 a = of_int m * pow2 (e - 52)"
    by (simp add: round_binary64_def Let_def e_def u_def m_def)
  have e: "- 1022 \<le> e" by (simp add: e_def)
  have "0 \<le> a / u" using assms u by simp
  then have "of_int 0 \<le> a / u" by simp
  then have m0: "0 \<le> m" unfolding m_def by (rule round_half_even_mono_ge)
  have "a < pow2 (floor_log2 a + 1)" using assms by (rule floor_log2_bounds)
  also have "\<dots> \<le> pow2 (e + 1)" by (rule pow2_mono) (simp add: e_def)
  also have "\<dots> = pow2 53 * u"
    using pow2_add [of 53 "e - 52"] by (simp add: u_def add.commute)
  finally have "a / u < pow2 53" using u by (simp add: pos_divide_less_eq)
  then have "a / u \<le> of_int (2 ^ 53)" using pow2_nat [of 53] by simp
  then have m1: "m \<le> 2 ^ 53" unfolding m_def by (rule round_half_even_mono_le)
  have m2: "2 ^ 52 \<le> m \<or> e = - 1022"
  proof (cases "e = - 1022")
    case False
    then have "e = floor_log2 a" by (simp add: e_def max_def split: if_splits)
    with floor_log2_bounds(1) [OF assms] have "pow2 e \<le> a" by simp
    moreover have "pow2 e = pow2 52 * u" by (simp add: u_def pow2_add [symmetric])
    ultimately have "pow2 52 \<le> a / u" using u by (simp add: pos_le_divide_eq)
    then have "of_int (2 ^ 52) \<le> a / u" using pow2_nat [of 52] by simp
    then have "2 ^ 52 \<le> m" unfolding m_def by (rule round_half_even_mono_ge)
    then show ?thesis ..
  qed simp
  from r m0 m1 e m2 show thesis by (rule that)
qed

lemma round_binary64_fix:
  assumes r: "r = of_int m * pow2 (e - 52)" and m0: "0 < m" and m1: "m \<le> 2 ^ 53"
    and e: "- 1022 \<le> e" and m2: "2 ^ 52 \<le> m \<or> e = - 1022"
  shows "round_binary64 r = r"
proof -
  have rpos: "0 < r" using m0 by (simp add: r pow2_pos)
  have p52: "pow2 e = of_int (2 ^ 52) * pow2 (e - 52)"
    using pow2_add [of 52 "e - 52"] pow2_nat [of 52] by simp
  have p53: "pow2 (e + 1) = of_int (2 ^ 53) * pow2 (e - 52)"
    using pow2_add [of 53 "e - 52"] pow2_nat [of 53] by (simp add: add.commute)
  have upper: "r \<le> pow2 (e + 1)"
    unfolding r p53 using m1 pow2_pos [of "e - 52"]
    by (intro mult_right_mono) (simp_all only: of_int_le_iff less_imp_le)
  consider (top) "m = 2 ^ 53" | (normal) "2 ^ 52 \<le> m" "m < 2 ^ 53" | (sub) "m < 2 ^ 52" "e = - 1022"
    using m1 m2 by linarith
  then show ?thesis
  proof cases
    case top
    then have req: "r = pow2 (e + 1)" by (simp only: r p53)
    have "floor_log2 r = e + 1"
    proof (rule antisym)
      show "floor_log2 r \<le> e + 1"
        using rpos by (rule floor_log2_le) (simp add: req pow2_less_iff)
      show "e + 1 \<le> floor_log2 r"
        using rpos by (rule floor_log2_ge) (simp add: req)
    qed
    then have "max (floor_log2 r) (- 1022) = e + 1" using e by simp
    moreover have "r / pow2 (e + 1 - 52) = of_int (2 ^ 52)"
      using pow2_diff [of "e + 1" "e + 1 - 52"] pow2_nat [of 52] by (simp add: req)
    moreover have "of_int (2 ^ 52) * pow2 (e + 1 - 52) = r"
      using pow2_add [of 52 "e + 1 - 52"] pow2_nat [of 52] by (simp add: req add.commute)
    ultimately show ?thesis
      by (simp only: round_binary64_def Let_def round_half_even_int)
  next
    case normal
    have lower: "pow2 e \<le> r"
      unfolding r p52 using normal(1) pow2_pos [of "e - 52"]
      by (intro mult_right_mono) (simp_all only: of_int_le_iff less_imp_le)
    have strict: "r < pow2 (e + 1)"
      unfolding r p53 using normal(2) pow2_pos [of "e - 52"]
      by (intro mult_strict_right_mono) (simp_all only: of_int_less_iff)
    have "floor_log2 r = e"
      using floor_log2_le [OF rpos strict] floor_log2_ge [OF rpos lower] by simp
    then have "max (floor_log2 r) (- 1022) = e" using e by simp
    moreover have "r / pow2 (e - 52) = of_int m"
      using pow2_pos [of "e - 52"] by (simp add: r)
    ultimately show ?thesis
      by (simp only: round_binary64_def Let_def round_half_even_int r)
  next
    case sub
    have "r < pow2 e"
      unfolding r p52 using sub(1) pow2_pos [of "e - 52"]
      by (intro mult_strict_right_mono) (simp_all only: of_int_less_iff)
    then have "r < pow2 ((e - 1) + 1)" by simp
    from floor_log2_le [OF rpos this] have "floor_log2 r \<le> - 1022" using sub(2) by simp
    then have "max (floor_log2 r) (- 1022) = e" using sub(2) by simp
    moreover have "r / pow2 (e - 52) = of_int m"
      using pow2_pos [of "e - 52"] by (simp add: r)
    ultimately show ?thesis
      by (simp only: round_binary64_def Let_def round_half_even_int r)
  qed
qed


lemma round_binary64_nonneg: "0 < a \<Longrightarrow> 0 \<le> round_binary64 a"
proof -
  assume "0 < a"
  then obtain m e where "round_binary64 a = of_int m * pow2 (e - 52)" "0 \<le> m"
    by (rule round_binary64_grid)
  then show ?thesis using pow2_pos [of "e - 52"] by simp
qed


lemma round_binary64_bound:
  assumes "0 < a"
  shows "round_binary64 a \<le> 2 * a + 1"
proof -
  define e where "e = max (floor_log2 a) (- 1022)"
  define u where "u = pow2 (e - 52)"
  have u: "0 < u" by (simp add: u_def pow2_pos)
  have "round_binary64 a = of_int (round_half_even (a / u)) * u"
    by (simp add: round_binary64_def Let_def e_def u_def)
  also have "\<dots> \<le> (a / u + 1) * u"
    using u round_half_even_le [of "a / u"] by (intro mult_right_mono) simp_all
  also have "\<dots> = a + u" using u by (simp add: algebra_simps)
  finally have 1: "round_binary64 a \<le> a + u" .
  have "u \<le> a + 1"
  proof (cases "e = - 1022")
    case True
    have "u \<le> pow2 0" unfolding u_def by (rule pow2_mono) (simp add: True)
    with assms show ?thesis by simp
  next
    case False
    then have "e = floor_log2 a" by (simp add: e_def max_def split: if_splits)
    with floor_log2_bounds(1) [OF assms] have "pow2 e \<le> a" by simp
    moreover have "u \<le> pow2 e" unfolding u_def by (rule pow2_mono) simp
    ultimately show ?thesis by simp
  qed
  with 1 show ?thesis by simp
qed

lemma float_of_rat_finite:
  assumes "0 \<le> q" "q \<le> 2 ^ 1000"
  shows "\<exists>x. float_of_rat q = Finite x \<and> 0 \<le> x"
proof (cases "q = 0")
  case True
  then show ?thesis by (simp add: float_of_rat_def)
next
  case False
  with assms have a: "0 < q" by simp
  have "round_binary64 q \<le> 2 * q + 1" using a by (rule round_binary64_bound)
  also have "\<dots> \<le> 2 * 2 ^ 1000 + 1" using assms(2) by simp
  also have "\<dots> < (2 ^ 1024 :: rat)" by simp
  finally have "round_binary64 q < 2 ^ 1024" .
  with a round_binary64_nonneg [OF a] show ?thesis
    by (simp add: float_of_rat_def Let_def)
qed

lemma round_binary64_exact:
  assumes j: "0 < j" "j < 2 ^ 53" and s: "- 1022 \<le> s"
  shows "round_binary64 (of_int j * pow2 s) = of_int j * pow2 s"
proof -
  define b where "b = bitlen j"
  from bitlen_bounds [OF j(1)] have lo: "2 ^ nat (b - 1) \<le> j" and hi: "j < 2 ^ nat b"
    by (simp_all add: b_def)
  have b1: "1 \<le> b"
    unfolding b_def using j(1) bitlen_eq_zero_iff [of j] bitlen_nonneg [of j] by linarith
  have "(2::int) ^ nat (b - 1) < 2 ^ 53" using lo j(2) by simp
  then have "nat (b - 1) < 53" by (simp only: power_strict_increasing_iff)
  then have b2: "b \<le> 53" by simp
  define c where "c = nat (53 - b)"
  define m where "m = j * 2 ^ c"
  have m0: "0 < m" using j(1) by (simp add: m_def)
  have cb: "c + nat (b - 1) = 52" "c + nat b = 53" using b1 b2 by (simp_all add: c_def)
  have "(2::int) ^ 52 = 2 ^ nat (b - 1) * 2 ^ c"
    by (simp add: power_add [symmetric] cb add.commute)
  also have "\<dots> \<le> m" unfolding m_def using lo by (intro mult_right_mono) simp_all
  finally have m2: "2 ^ 52 \<le> m" .
  have "m < 2 ^ nat b * 2 ^ c" unfolding m_def using hi by (intro mult_strict_right_mono) simp_all
  also have "\<dots> = 2 ^ 53" by (simp add: power_add [symmetric] cb add.commute)
  finally have m1: "m \<le> 2 ^ 53" by simp
  define e where "e = s + b - 1"
  have e: "- 1022 \<le> e" using s b1 by (simp add: e_def)
  have "pow2 s = pow2 (int c) * pow2 (e - 52)"
    using b1 b2 by (simp add: pow2_add [symmetric] e_def c_def)
  then have r: "of_int j * pow2 s = of_int m * pow2 (e - 52)"
    by (simp add: m_def pow2_nat)
  from r m0 m1 e show ?thesis
    by (rule round_binary64_fix) (rule disjI1, rule m2)
qed

lemma float_of_rat_exact:
  assumes "0 \<le> j" "j < 2 ^ 53" "- 1022 \<le> s" "s \<le> 0"
  shows "float_of_rat (of_int j * pow2 s) = Finite (of_int j * pow2 s)"
proof (cases "j = 0")
  case True
  then show ?thesis by (simp add: float_of_rat_def)
next
  case False
  with assms(1) have j: "0 < j" by simp
  let ?q = "of_int j * pow2 s"
  have q: "0 < ?q" using j by (simp add: pow2_pos)
  have "pow2 s \<le> pow2 0" using assms(4) by (rule pow2_mono)
  then have "?q \<le> of_int j * 1" using j by (intro mult_left_mono) simp_all
  also have "\<dots> < of_int (2 ^ 53)" using assms(2) by (simp only: of_int_less_iff mult_1_right)
  also have "\<dots> < (2 ^ 1024 :: rat)" by simp
  finally have "?q < 2 ^ 1024" .
  with q show ?thesis
    by (simp add: float_of_rat_def Let_def round_binary64_exact [OF j assms(2,3)])
qed

lemma float_of_rat_int: "0 \<le> n \<Longrightarrow> n < 2 ^ 53 \<Longrightarrow> float_of_rat (of_int n) = Finite (of_int n)"
  using float_of_rat_exact [of n 0] by simp

lemma float_of_rat_eighths:
  "0 \<le> j \<Longrightarrow> j < 2 ^ 53 \<Longrightarrow> float_of_rat (of_int j / 8) = Finite (of_int j / 8)"
  using float_of_rat_exact [of j "- 3"] by (simp add: pow2_def)

lemma round_half_even_near:
  assumes "\<bar>q - of_int m\<bar> < 1 / 2"
  shows "round_half_even q = m"
proof (cases "of_int m \<le> q")
  case True
  with assms have "q < of_int m + 1" by simp
  with True have f: "\<lfloor>q\<rfloor> = m" by (simp add: floor_unique)
  from assms True have "q - of_int m < 1 / 2" by simp
  then show ?thesis by (simp add: round_half_even_def Let_def f)
next
  case False
  with assms have lo: "of_int (m - 1) \<le> q" and hi: "q < of_int (m - 1) + 1" by simp_all
  then have f: "\<lfloor>q\<rfloor> = m - 1" by (rule floor_unique)
  from assms False have "1 / 2 < q - of_int (m - 1)" by simp
  then show ?thesis by (simp add: round_half_even_def Let_def f)
qed

lemma float_of_rat_eval:
  assumes a: "0 < a" "a \<le> 2 ^ 1000" and e: "pow2 e \<le> a" "a < pow2 (e + 1)" "- 1022 \<le> e"
    and m: "\<bar>a / pow2 (e - 52) - of_int m\<bar> < 1 / 2"
  shows "float_of_rat a = Finite (of_int m * pow2 (e - 52))"
proof -
  have "floor_log2 a = e"
    using floor_log2_le [OF a(1) e(2)] floor_log2_ge [OF a(1) e(1)] by simp
  then have "max (floor_log2 a) (- 1022) = e" using e(3) by simp
  then have r: "round_binary64 a = of_int m * pow2 (e - 52)"
    by (simp add: round_binary64_def Let_def round_half_even_near [OF m])
  have "round_binary64 a \<le> 2 * a + 1" using a(1) by (rule round_binary64_bound)
  also have "\<dots> \<le> 2 * 2 ^ 1000 + 1" using a(2) by simp
  also have "\<dots> < (2 ^ 1024 :: rat)" by simp
  finally have "round_binary64 a < 2 ^ 1024" .
  with a(1) show ?thesis
    by (simp add: float_of_rat_def Let_def r [symmetric])
qed

lemma float_of_rat_thousandth:
  "float_of_rat (1 / 1000) = Finite (1152921504606847 / 1152921504606846976)"
  using float_of_rat_eval [of "1 / 1000" "- 10" 4611686018427388]
  by (simp add: pow2_def)

section \<open>Facts about the parsers\<close>

lemma isdigit_not_space: "py_isdigit c \<Longrightarrow> \<not> py_isspace c"
  by (auto simp: py_isdigit_def py_isspace_def)

lemma isdigit_not_sign: "py_isdigit c \<Longrightarrow> c \<noteq> CHR ''-'' \<and> c \<noteq> CHR ''+'' \<and> c \<noteq> CHR ''_''"
  by (auto simp: py_isdigit_def)

lemma py_strip_id:
  assumes "s \<noteq> []" "\<not> py_isspace (hd s)" "\<not> py_isspace (last s)"
  shows "py_strip s = s"
proof -
  from assms(1,2) have 1: "dropWhile py_isspace s = s"
    by (cases s) simp_all
  from assms(1,3) have 2: "dropWhile py_isspace (rev s) = rev s"
    by (cases "rev s") (simp_all add: last_rev [symmetric] hd_rev)
  show ?thesis by (simp add: py_strip_def 1 2)
qed

lemma ungroup_digits: "ds \<noteq> [] \<Longrightarrow> list_all py_isdigit ds \<Longrightarrow> ungroup ds = Some ds"
  by (induction ds rule: ungroup.induct) (auto dest: isdigit_not_sign)

lemma py_int_of_str_digits:
  assumes "ds \<noteq> []" "list_all py_isdigit ds"
  shows "py_int_of_str ds = Inr (int (nat_of_digits ds))"
proof -
  from assms have h: "py_isdigit (hd ds)" and l: "py_isdigit (last ds)"
    by (auto simp: list_all_iff)
  have strip: "py_strip ds = ds"
    using assms(1) h l by (intro py_strip_id) (auto dest: isdigit_not_space)
  have sign: "split_sign ds = (False, ds)"
    using assms(1) h by (cases ds) (auto simp: split_sign_def dest: isdigit_not_sign)
  show ?thesis
    by (simp add: py_int_of_str_def strip sign ungroup_digits [OF assms])
qed

lemma py_int_of_str_error: "py_int_of_str s = Inl e \<Longrightarrow> e = ValueError"
  by (auto simp: py_int_of_str_def split: prod.splits option.splits)

lemma py_date_error: "py_date y m d = Inl e \<Longrightarrow> e = ValueError"
  by (auto simp: py_date_def split: if_splits)

lemma py_int_of_str_empty: "py_int_of_str [] = Inl ValueError"
  by (simp add: py_int_of_str_def py_strip_def split_sign_def)


lemma OptionSymbol_polygon_shape:
  assumes s: "(if py_startswith s ''O:'' then drop 2 s else s) = U @ E @ t # D"
    and E: "length E = 6" and D: "length D = 8"
  shows "OptionSymbol_polygon Y s =
     py_bind (py_int_of_str (take 2 Y @ take 2 E)) (\<lambda>y.
     py_bind (py_int_of_str (py_slice E 2 4)) (\<lambda>m.
     py_bind (py_int_of_str (py_slice E 4 6)) (\<lambda>d.
     py_bind (py_date y m d) (\<lambda>dt.
     py_bind (py_int_of_str D) (\<lambda>n.
     py_bind (py_truediv n 1000) (\<lambda>x.
       Inr \<lparr>underlying_symbol = filter (\<lambda>x. \<not> py_isdigit x) U, raw_expiry = E, expiry = dt,
            call_or_put = py_upper [t], strike_price = PyFloat x,
            option_symbol = filter (\<lambda>x. \<not> py_isdigit x) U @ E @ t # D\<rparr>))))))"
proof -
  define s' where "s' = U @ E @ t # D"
  have len: "length s' - 15 = length U" by (simp add: s'_def E D)
  have head: "take (length U) s' = U" by (simp add: s'_def)
  have exp: "py_slice s' (length U) (length U + 6) = E" by (simp add: s'_def py_slice_def E)
  have idx: "py_index s' (length U + 6) = Inr [t]"
    by (simp add: s'_def py_index_def E nth_append)
  have tail: "drop (length U + 7) s' = D" by (simp add: s'_def E)
  have rest: "drop (length U) s' = E @ t # D" by (simp add: s'_def)
  show ?thesis
    unfolding OptionSymbol_polygon_def s s'_def [symmetric] Let_def
    by (simp add: len head exp idx tail rest)
qed

lemma digit_val_less: "py_isdigit c \<Longrightarrow> digit_val c < 10"
  by (auto simp: py_isdigit_def digit_val_def upt_conv_Cons)

lemma nat_of_digits_bound: "list_all py_isdigit ds \<Longrightarrow> nat_of_digits ds < 10 ^ length ds"
proof (induction ds rule: rev_induct)
  case Nil
  show ?case by (simp add: nat_of_digits_def)
next
  case (snoc c ds)
  then have "nat_of_digits ds < 10 ^ length ds" and "digit_val c < 10"
    by (simp_all add: digit_val_less)
  then have "10 * nat_of_digits ds + digit_val c < 10 * 10 ^ length ds"
    by linarith
  then show ?case by (simp add: nat_of_digits_snoc)
qed

lemma py_truediv_1000:
  assumes "0 \<le> n" "n < 10 ^ 8"
  obtains x where "float_of_rat (of_int n / 1000) = Finite x"
    "py_truediv n 1000 = Inr (Finite x)"
proof -
  have "(of_int n :: rat) < of_int (10 ^ 8)" using assms(2) by (simp only: of_int_less_iff)
  then have "(of_int n / 1000 :: rat) \<le> 2 ^ 1000" by simp
  moreover have "(0::rat) \<le> of_int n / 1000" using assms(1) by simp
  ultimately obtain x where x: "float_of_rat (of_int n / 1000) = Finite x"
    using float_of_rat_finite by blast
  then have "py_truediv n 1000 = Inr (Finite x)" by (simp add: py_truediv_def)
  with x show thesis by (rule that)
qed

lemma py_index_short: "length s \<le> i \<Longrightarrow> py_index s i = Inl IndexError"
  by (simp add: py_index_def)

lemma py_index_error: "py_index s i = Inl e \<Longrightarrow> e = IndexError"
  by (auto simp: py_index_def split: if_splits)

lemma parse_short_fails:
  assumes "length (if py_startswith s ''O:'' then drop 2 s else s) < 8"
  shows "parse_option_symbol Y s = Inl ValueError \<or> parse_option_symbol Y s = Inl IndexError"
proof -
  define s' where "s' = (if py_startswith s ''O:'' then drop 2 s else s)"
  have len: "length s' - 15 = 0" "length s' < 8" using assms by (simp_all add: s'_def)
  have tail: "py_index s' 6 = Inl IndexError \<or> py_int_of_str (drop 7 s') = Inl ValueError"
  proof (cases "length s' \<le> 6")
    case True
    then show ?thesis by (simp add: py_index_short)
  next
    case False
    with len(2) have "drop 7 s' = []" by simp
    then show ?thesis by (simp add: py_int_of_str_empty)
  qed
  have "OptionSymbol_polygon Y s = Inl ValueError \<or> OptionSymbol_polygon Y s = Inl IndexError"
    unfolding OptionSymbol_polygon_def s'_def [symmetric] Let_def len
    using tail
    by (auto simp: py_bind_def split: sum.splits
        dest: py_int_of_str_error py_date_error py_index_error)
  then show ?thesis by (simp add: parse_option_symbol_def)
qed

lemma strike_of_shape:
  assumes s: "(if py_startswith s ''O:'' then drop 2 s else s) = U @ E @ t # D"
    and E: "length E = 6" and D: "length D = 8" "list_all py_isdigit D"
    and r: "parse_option_symbol Y s = Inr r"
  shows "strike_price r = PyFloat (float_of_rat (of_nat (nat_of_digits D) / 1000))"
    "\<exists>x. float_of_rat (of_nat (nat_of_digits D) / 1000) = Finite x"
proof -
  have D0: "D \<noteq> []" using D(1) by auto
  have n: "py_int_of_str D = Inr (int (nat_of_digits D))"
    using D0 D(2) by (rule py_int_of_str_digits)
  have "nat_of_digits D < 10 ^ 8"
    using nat_of_digits_bound [OF D(2)] by (simp add: D(1))
  then have "int (nat_of_digits D) < 10 ^ 8" by simp
  then obtain x where x: "float_of_rat (of_int (int (nat_of_digits D)) / 1000) = Finite x"
    "py_truediv (int (nat_of_digits D)) 1000 = Inr (Finite x)"
    using py_truediv_1000 [of "int (nat_of_digits D)"] by auto
  from x(1) show "\<exists>x. float_of_rat (of_nat (nat_of_digits D) / 1000) = Finite x"
    by auto
  from r have "OptionSymbol_polygon Y s = Inr r" by (simp add: parse_option_symbol_def)
  then have "strike_price r = PyFloat (Finite x)"
    unfolding OptionSymbol_polygon_shape [OF s E D(1)] n
    by (auto simp: py_bind_def x(2) split: sum.splits)
  with x(1) show "strike_price r = PyFloat (float_of_rat (of_nat (nat_of_digits D) / 1000))"
    by simp
qed









lemma digit_val_simps:
  "digit_val CHR ''0'' = 0" "digit_val CHR ''1'' = 1" "digit_val CHR ''2'' = 2"
  "digit_val CHR ''3'' = 3" "digit_val CHR ''4'' = 4" "digit_val CHR ''5'' = 5"
  "digit_val CHR ''6'' = 6" "digit_val CHR ''7'' = 7" "digit_val CHR ''8'' = 8"
  "digit_val CHR ''9'' = 9"
  by (simp_all add: digit_val_def upt_conv_Cons)

lemmas int_of_digits = py_int_of_str_digits py_isdigit_def nat_of_digits_def digit_val_simps

lemma parse_option_symbol_eval:
  assumes "(if py_startswith s ''O:'' then drop 2 s else s) = U @ E @ t # D"
    and "length E = 6" and "length D = 8"
    and "py_int_of_str (take 2 Y @ take 2 E) = Inr y"
    and "py_int_of_str (py_slice E 2 4) = Inr m"
    and "py_int_of_str (py_slice E 4 6) = Inr d"
    and "py_date y m d = Inr dt"
    and "py_int_of_str D = Inr n"
    and "py_truediv n 1000 = Inr x"
  shows "parse_option_symbol Y s =
     Inr \<lparr>underlying_symbol = filter (\<lambda>x. \<not> py_isdigit x) U, raw_expiry = E, expiry = dt,
          call_or_put = py_upper [t], strike_price = PyFloat x,
          option_symbol = filter (\<lambda>x. \<not> py_isdigit x) U @ E @ t # D\<rparr>"
  unfolding parse_option_symbol_def OptionSymbol_polygon_shape [OF assms(1-3)]
  by (simp add: assms(4-9))

lemma py_truediv_exact_int:
  "0 \<le> n \<Longrightarrow> n < 2 ^ 53 \<Longrightarrow> py_truediv (1000 * n) 1000 = Inr (Finite (of_int n))"
  using float_of_rat_int [of n] by (simp add: py_truediv_def)
























section \<open>Claims about prefix handling and format detection\<close>

text \<open>
  C10. \<open>ensure_prefix\<close> raises an error if and only if the symbol has fewer than 15
  characters. Otherwise, for an ASCII symbol, it returns the uppercased symbol when the
  symbol already starts with \<^verbatim>\<open>O:\<close> in either case, and \<^verbatim>\<open>O:\<close> followed by the uppercased
  symbol when it does not. Hence, for an ASCII symbol of at least 15 characters, the
  result is a fixed point of \<open>ensure_prefix\<close> (idempotence), starts with \<^verbatim>\<open>O:\<close>, and is
  fully uppercase: uppercasing leaves it unchanged and it holds no lowercase letter; it is
  ASCII again.
\<close>

theorem ensure_prefix_spec:
  "((\<exists>e. ensure_prefix s = Inl e) \<longleftrightarrow> length s < 15) \<and>
   (py_isascii s \<and> 15 \<le> length s \<longrightarrow>
      ensure_prefix s =
        Inr (if \<exists>c t. s = c # CHR '':'' # t \<and> (c = CHR ''o'' \<or> c = CHR ''O'')
             then py_upper s else ''O:'' @ py_upper s)) \<and>
   (py_isascii s \<and> 15 \<le> length s \<longrightarrow>
      (\<exists>r. ensure_prefix s = Inr r \<and> ensure_prefix r = Inr r \<and> take 2 r = ''O:'' \<and>
           py_upper r = r \<and> (\<forall>c \<in> set r. c \<notin> set ascii_lowercase) \<and> py_isascii r))"
proof (intro conjI impI)
  show "(\<exists>e. ensure_prefix s = Inl e) \<longleftrightarrow> length s < 15"
    by (simp add: ensure_prefix_def)
next
  assume "py_isascii s \<and> 15 \<le> length s"
  then show "ensure_prefix s =
      Inr (if \<exists>c t. s = c # CHR '':'' # t \<and> (c = CHR ''o'' \<or> c = CHR ''O'')
           then py_upper s else ''O:'' @ py_upper s)"
    by (simp add: ensure_prefix_def upper_starts_marker)
next
  assume a: "py_isascii s \<and> 15 \<le> length s"
  then have len: "15 \<le> length s" and asc: "py_isascii s" by simp_all
  define r where "r = (if py_startswith (py_upper s) ''O:'' then py_upper s else ''O:'' @ py_upper s)"
  have res: "ensure_prefix s = Inr r"
    using len by (simp add: ensure_prefix_def r_def)
  have marker: "py_upper (CHR ''O'' # CHR '':'' # t) = CHR ''O'' # CHR '':'' # py_upper t" for t
    by (simp add: py_upper_def py_upper_char_def ascii_lowercase_def ascii_uppercase_def)
  have up: "py_upper r = r"
    by (simp add: r_def marker py_upper_idem)
  have start: "py_startswith r ''O:''"
    by (simp add: r_def) (simp add: py_startswith_def)
  have rlen: "15 \<le> length r"
    using len by (simp add: r_def length_py_upper)
  have idem: "ensure_prefix r = Inr r"
    using rlen start by (simp add: ensure_prefix_def up)
  have two: "take 2 r = ''O:''"
    using start by (simp add: py_startswith_def numeral_2_eq_2)
  have "set r \<subseteq> range py_upper_char"
    using up by (metis py_upper_def set_map image_mono subset_UNIV)
  then have nolow: "\<forall>c \<in> set r. c \<notin> set ascii_lowercase"
    using py_upper_char_not_lower by auto
  have "py_isascii ''O:''" by (simp add: py_isascii_def)
  then have rasc: "py_isascii r"
    using py_upper_ascii [OF asc] by (simp add: r_def py_isascii_def)
  from res idem two up nolow rasc
  show "\<exists>r. ensure_prefix s = Inr r \<and> ensure_prefix r = Inr r \<and> take 2 r = ''O:'' \<and>
           py_upper r = r \<and> (\<forall>c \<in> set r. c \<notin> set ascii_lowercase) \<and> py_isascii r"
    by blast
qed

theorem ensure_prefix_spec_witness:
  "py_isascii ''tsla211015p00125000'' \<and> 15 \<le> length ''tsla211015p00125000'' \<and>
   ensure_prefix ''tsla211015p00125000'' = Inr ''O:TSLA211015P00125000'' \<and>
   ensure_prefix ''O:TSLA211015P00125000'' = Inr ''O:TSLA211015P00125000''"
proof -
  have len: "15 \<le> length ''tsla211015p00125000''"
    by simp
  have asc: "py_isascii ''tsla211015p00125000''"
    by (simp add: py_isascii_def)
  have res: "ensure_prefix ''tsla211015p00125000'' = Inr ''O:TSLA211015P00125000''"
    by (simp add: ensure_prefix_def py_startswith_def py_upper_def py_upper_char_def
        ascii_lowercase_def ascii_uppercase_def)
  from ensure_prefix_spec [of "''tsla211015p00125000''"] len asc
  obtain r where "ensure_prefix ''tsla211015p00125000'' = Inr r" and "ensure_prefix r = Inr r"
    by blast
  with res have "ensure_prefix ''O:TSLA211015P00125000'' = Inr ''O:TSLA211015P00125000''"
    by simp
  with len asc res show ?thesis
    by blast
qed

text \<open>
  C6, as the code has it. \<open>detect_symbol_format\<close> is a cascade with three results. A
  symbol that starts with a dot or contains an underscore gets the one tag \<^verbatim>\<open>tda\<close> of the
  broker format: the dot variant and the underscore variant are not told apart. Otherwise
  a symbol that starts with the marker \<^verbatim>\<open>O:\<close> or is longer than 15 characters gets the tag
  \<^verbatim>\<open>polygon\<close> (the OCC-style format). Every other symbol is unrecognized (\<^verbatim>\<open>False\<close>). In
  particular \<^verbatim>\<open>.TSLA210903C700\<close> is classified as the broker format and
  \<^verbatim>\<open>O:TSLA211015P00125000\<close> as the OCC-style format.
\<close>

theorem detect_symbol_format_spec:
  "detect_symbol_format s =
     (if (\<exists>t. s = CHR ''.'' # t) \<or> CHR ''_'' \<in> set s then Some ''tda''
      else if (\<exists>t. s = CHR ''O'' # CHR '':'' # t) \<or> 15 < length s then Some ''polygon''
      else None) \<and>
   detect_symbol_format s \<in> {Some ''tda'', Some ''polygon'', None} \<and>
   detect_symbol_format ''.TSLA210903C700'' = Some ''tda'' \<and>
   detect_symbol_format ''O:TSLA211015P00125000'' = Some ''polygon''"
proof (intro conjI)
  have dot: "py_startswith s ''.'' \<longleftrightarrow> (\<exists>t. s = CHR ''.'' # t)"
    by (simp add: py_startswith_iff)
  have marker: "py_startswith s ''O:'' \<longleftrightarrow> (\<exists>t. s = CHR ''O'' # CHR '':'' # t)"
    by (simp add: py_startswith_iff)
  show "detect_symbol_format s =
     (if (\<exists>t. s = CHR ''.'' # t) \<or> CHR ''_'' \<in> set s then Some ''tda''
      else if (\<exists>t. s = CHR ''O'' # CHR '':'' # t) \<or> 15 < length s then Some ''polygon''
      else None)"
    unfolding detect_symbol_format_def dot marker by simp
  show "detect_symbol_format s \<in> {Some ''tda'', Some ''polygon'', None}"
    by (simp add: detect_symbol_format_def)
  show "detect_symbol_format ''.TSLA210903C700'' = Some ''tda''"
    by (simp add: detect_symbol_format_def py_startswith_def)
  show "detect_symbol_format ''O:TSLA211015P00125000'' = Some ''polygon''"
    by (simp add: detect_symbol_format_def py_startswith_def)
qed

text \<open>
  The dot symbol \<^verbatim>\<open>.TSLA210903C700\<close> and the underscore symbol \<^verbatim>\<open>TSLA_090321C700\<close> get the
  same result: the detector does not classify a symbol as the dot variant.
\<close>

theorem detect_symbol_format_counterexample:
  "detect_symbol_format ''.TSLA210903C700'' = Some ''tda'' \<and>
   detect_symbol_format ''TSLA_090321C700'' = Some ''tda''"
  by (simp add: detect_symbol_format_def py_startswith_def)

section \<open>Claims about building option symbols\<close>

text \<open>
  C5. The two concrete builds. \<^verbatim>\<open>build_option_symbol("TSLA", date(2021,10,15), "put", 125.0,
  prefix_o=True)\<close> returns \<^verbatim>\<open>O:TSLA211015P00125000\<close>, given that \<^verbatim>\<open>str(125.0)\<close> is
  \<^verbatim>\<open>125.0\<close>; and \<^verbatim>\<open>build_option_symbol("FB", "210903", "c", 700)\<close> returns
  \<^verbatim>\<open>FB210903C00700000\<close>.
\<close>

theorem build_option_symbol_examples:
  "(fs (Finite 125) = ''125.0'' \<longrightarrow>
      build_option_symbol fs ''TSLA'' (ExpiryDate \<lparr>year = 2021, month = 10, day = 15\<rparr>) ''put''
        (PyFloat (Finite 125)) True = Inr ''O:TSLA211015P00125000'') \<and>
   build_option_symbol fs ''FB'' (ExpiryStr ''210903'') ''c'' (PyInt 700) False =
     Inr ''FB210903C00700000''"
proof (intro conjI impI)
  assume fs: "fs (Finite 125) = ''125.0''"
  have k: "strike_digits fs (PyFloat (Finite 125)) = Inr (''00125'', ''000'')"
    using strike_digits_point [of fs "PyFloat (Finite 125)" "''125''" "''0''"] fs
    by (simp add: py_str_def replicate_small)
  have d: "strftime_yymmdd \<lparr>year = 2021, month = 10, day = 15\<rparr> = ''211015''"
    by (simp add: strftime_yymmdd_def two_digits_def py_rjust_def digits_of_nat.simps
        digit_char_def)
  show "build_option_symbol fs ''TSLA'' (ExpiryDate \<lparr>year = 2021, month = 10, day = 15\<rparr>) ''put''
        (PyFloat (Finite 125)) True = Inr ''O:TSLA211015P00125000''"
    by (simp add: build_option_symbol_def k d py_lower_def py_lower_char_def py_upper_def
        py_upper_char_def ascii_lowercase_def ascii_uppercase_def)
next
  have k: "strike_digits fs (PyInt 700) = Inr (''00700'', ''000'')"
    by (simp add: strike_digits_int py_str_int_def digits_of_nat.simps digit_char_def
        replicate_small)
  show "build_option_symbol fs ''FB'' (ExpiryStr ''210903'') ''c'' (PyInt 700) False =
     Inr ''FB210903C00700000''"
    by (simp add: build_option_symbol_def k py_lower_def py_lower_char_def py_upper_def
        py_upper_char_def ascii_lowercase_def ascii_uppercase_def)
qed

theorem build_option_symbol_examples_witness:
  "(\<lambda>x. ''125.0'') (Finite 125) = ''125.0'' \<and>
   build_option_symbol (\<lambda>x. ''125.0'') ''TSLA''
     (ExpiryDate \<lparr>year = 2021, month = 10, day = 15\<rparr>) ''put'' (PyFloat (Finite 125)) True =
     Inr ''O:TSLA211015P00125000''"
  using build_option_symbol_examples [of "\<lambda>x. ''125.0''"] by simp

text \<open>
  C8. The expiry check of \<open>build_option_symbol\<close>. A string expiry whose length is not
  6 fails with the expiry error, whatever the other arguments are. A string of 6
  characters is printed as it is, and a date is printed as \<^verbatim>\<open>YYMMDD\<close> (two digits each of
  the year modulo 100, the month and the day). No other check of the expiry is made: with a
  date or a string of 6 characters the build fails only if printing the strike fails, and
  never with the expiry error.
\<close>

theorem build_option_symbol_expiry:
  "build_option_symbol fs u (ExpiryStr s) cp k p =
     (if length s \<noteq> 6 then Inl ExpiryLengthError
      else py_bind (strike_digits fs k)
             (\<lambda>(a, b). Inr ((if p then ''O:'' else []) @ py_upper u @ s @ type_letter cp @ a @ b))) \<and>
   build_option_symbol fs u (ExpiryDate dt) cp k p =
     py_bind (strike_digits fs k)
       (\<lambda>(a, b). Inr ((if p then ''O:'' else []) @ py_upper u @ strftime_yymmdd dt @
                       type_letter cp @ a @ b)) \<and>
   strike_digits fs k \<noteq> Inl ExpiryLengthError \<and>
   (valid_date dt \<longrightarrow>
      strftime_yymmdd dt =
        [digit_char (year dt mod 100 div 10), digit_char (year dt mod 10),
         digit_char (month dt div 10), digit_char (month dt mod 10),
         digit_char (day dt div 10), digit_char (day dt mod 10)])"
proof (intro conjI impI)
  assume "valid_date dt"
  from valid_date_bounds(1,2) [OF this]
  show "strftime_yymmdd dt =
        [digit_char (year dt mod 100 div 10), digit_char (year dt mod 10),
         digit_char (month dt div 10), digit_char (month dt mod 10),
         digit_char (day dt div 10), digit_char (day dt mod 10)]"
    by (simp add: strftime_yymmdd_def two_digits_eq mod_mod_cancel)
qed (simp_all add: build_option_symbol_unfold strike_digits_no_expiry_error)

theorem build_option_symbol_expiry_witness:
  "valid_date \<lparr>year = 2021, month = 10, day = 15\<rparr> \<and>
   build_option_symbol (\<lambda>x. []) ''TSLA'' (ExpiryDate \<lparr>year = 2021, month = 10, day = 15\<rparr>) ''put''
     (PyInt 125) False = Inr ''TSLA211015P00125000'' \<and>
   build_option_symbol (\<lambda>x. []) ''TSLA'' (ExpiryStr ''211015'') ''put'' (PyInt 125) False =
     Inr ''TSLA211015P00125000'' \<and>
   build_option_symbol (\<lambda>x. []) ''TSLA'' (ExpiryStr ''20211015'') ''put'' (PyInt 125) False =
     Inl ExpiryLengthError"
proof -
  have v: "valid_date \<lparr>year = 2021, month = 10, day = 15\<rparr>"
    by (simp add: valid_date_def days_in_month_def)
  have k: "strike_digits (\<lambda>x. []) (PyInt 125) = Inr (''00125'', ''000'')"
    by (simp add: strike_digits_int py_str_int_def digits_of_nat.simps digit_char_def
        replicate_small)
  have u: "py_upper ''TSLA'' = ''TSLA''" "type_letter ''put'' = ''P''"
    by (simp_all add: type_letter_def py_lower_def py_lower_char_def py_upper_def
        py_upper_char_def ascii_lowercase_def ascii_uppercase_def)
  note t = build_option_symbol_expiry [of "\<lambda>x. []" "''TSLA''" _ "''put''" "PyInt 125" False
      "\<lparr>year = 2021, month = 10, day = 15\<rparr>"]
  have d: "strftime_yymmdd \<lparr>year = 2021, month = 10, day = 15\<rparr> = ''211015''"
    by (simp add: strftime_yymmdd_def two_digits_def py_rjust_def digits_of_nat.simps
        digit_char_def)
  from t [of "''211015''"]
  have a: "build_option_symbol (\<lambda>x. []) ''TSLA'' (ExpiryStr ''211015'') ''put'' (PyInt 125) False =
     Inr ''TSLA211015P00125000''"
    by (simp add: k u)
  from t [of "''20211015''"]
  have b: "build_option_symbol (\<lambda>x. []) ''TSLA'' (ExpiryStr ''20211015'') ''put'' (PyInt 125) False =
     Inl ExpiryLengthError"
    by simp
  from t [of "[]"]
  have c: "build_option_symbol (\<lambda>x. []) ''TSLA''
     (ExpiryDate \<lparr>year = 2021, month = 10, day = 15\<rparr>) ''put'' (PyInt 125) False =
     Inr ''TSLA211015P00125000''"
    by (simp add: k u d)
  from v a b c show ?thesis
    by blast
qed

text \<open>
  C7. The option type in both builders. Whenever \<open>build_option_symbol\<close> or
  \<open>build_option_symbol_for_tda\<close> returns a symbol, the letter printed after the expiry is
  \<^verbatim>\<open>C\<close> exactly when the lowercased argument is \<^verbatim>\<open>c\<close> or \<^verbatim>\<open>call\<close>, and \<^verbatim>\<open>P\<close> for every
  other argument. Whether a build fails does not depend on the option type argument, so an
  unrecognized type raises nothing: \<^verbatim>\<open>cal\<close> builds a put.
\<close>

theorem option_type_letter:
  "(\<forall>r. build_option_symbol fs u e cp k p = Inr r \<longrightarrow>
      (\<exists>a b. strike_digits fs k = Inr (a, b) \<and>
         r = (if p then ''O:'' else []) @ py_upper u @
             (case e of ExpiryDate dt \<Rightarrow> strftime_yymmdd dt | ExpiryStr s \<Rightarrow> s) @
             (if py_lower cp = ''c'' \<or> py_lower cp = ''call'' then ''C'' else ''P'') @ a @ b)) \<and>
   ((\<exists>err. build_option_symbol fs u e cp k p = Inl err) \<longleftrightarrow>
      (\<exists>err. build_option_symbol fs u e cp' k p = Inl err)) \<and>
   (\<forall>r. build_option_symbol_for_tda fs u e cp k fmt = Inr r \<longrightarrow>
      (\<exists>x i. py_float k = Inr x \<and> py_int_of_float x = Inr i \<and>
         r = (if fmt = ''dot'' then ''.'' @ u else u @ ''_'') @
             (case e of ExpiryDate dt \<Rightarrow> strftime_mmddyy dt | ExpiryStr s \<Rightarrow> s) @
             (if py_lower cp = ''c'' \<or> py_lower cp = ''call'' then ''C'' else ''P'') @
             py_str fs (if py_eq_int_float i x then PyInt i else k))) \<and>
   ((\<exists>err. build_option_symbol_for_tda fs u e cp k fmt = Inl err) \<longleftrightarrow>
      (\<exists>err. build_option_symbol_for_tda fs u e cp' k fmt = Inl err)) \<and>
   build_option_symbol fs ''FB'' (ExpiryStr ''210903'') ''cal'' (PyInt 700) False =
     Inr ''FB210903P00700000''"
proof (intro conjI allI impI)
  fix r
  assume "build_option_symbol fs u e cp k p = Inr r"
  then show "\<exists>a b. strike_digits fs k = Inr (a, b) \<and>
         r = (if p then ''O:'' else []) @ py_upper u @
             (case e of ExpiryDate dt \<Rightarrow> strftime_yymmdd dt | ExpiryStr s \<Rightarrow> s) @
             (if py_lower cp = ''c'' \<or> py_lower cp = ''call'' then ''C'' else ''P'') @ a @ b"
    by (cases e; cases "strike_digits fs k")
       (auto simp: build_option_symbol_unfold type_letter_def split: if_splits)
next
  show "(\<exists>err. build_option_symbol fs u e cp k p = Inl err) \<longleftrightarrow>
      (\<exists>err. build_option_symbol fs u e cp' k p = Inl err)"
    by (cases e; cases "strike_digits fs k")
       (auto simp: build_option_symbol_unfold split: if_splits)
next
  fix r
  assume "build_option_symbol_for_tda fs u e cp k fmt = Inr r"
  then show "\<exists>x i. py_float k = Inr x \<and> py_int_of_float x = Inr i \<and>
         r = (if fmt = ''dot'' then ''.'' @ u else u @ ''_'') @
             (case e of ExpiryDate dt \<Rightarrow> strftime_mmddyy dt | ExpiryStr s \<Rightarrow> s) @
             (if py_lower cp = ''c'' \<or> py_lower cp = ''call'' then ''C'' else ''P'') @
             py_str fs (if py_eq_int_float i x then PyInt i else k)"
    unfolding build_option_symbol_for_tda_unfold type_letter_def
    by (cases "py_float k"; cases "py_int_of_float (projr (py_float k))") auto
next
  show "(\<exists>err. build_option_symbol_for_tda fs u e cp k fmt = Inl err) \<longleftrightarrow>
      (\<exists>err. build_option_symbol_for_tda fs u e cp' k fmt = Inl err)"
    unfolding build_option_symbol_for_tda_unfold
    by (cases "py_float k"; cases "py_int_of_float (projr (py_float k))") auto
next
  have k: "strike_digits fs (PyInt 700) = Inr (''00700'', ''000'')"
    by (simp add: strike_digits_int py_str_int_def digits_of_nat.simps digit_char_def
        replicate_small)
  show "build_option_symbol fs ''FB'' (ExpiryStr ''210903'') ''cal'' (PyInt 700) False =
     Inr ''FB210903P00700000''"
    by (simp add: build_option_symbol_def k py_lower_def py_lower_char_def py_upper_def
        py_upper_char_def ascii_lowercase_def ascii_uppercase_def)
qed

theorem option_type_letter_witness:
  "build_option_symbol (\<lambda>x. []) ''FB'' (ExpiryStr ''210903'') ''cal'' (PyInt 700) False =
     Inr ''FB210903P00700000'' \<and>
   strike_digits (\<lambda>x. []) (PyInt 700) = Inr (''00700'', ''000'') \<and>
   build_option_symbol_for_tda (\<lambda>x. []) ''FB'' (ExpiryStr ''090321'') ''Call'' (PyInt 700)
     ''underscore'' = Inr ''FB_090321C700''"
proof -
  have f: "py_float (PyInt 700) = Inr (Finite 700)"
    using float_of_rat_int [of 700] by (simp add: py_float_def py_float_of_int_def)
  have i: "py_int_of_float (Finite 700) = Inr 700" "py_eq_int_float 700 (Finite 700)"
    by (simp_all add: py_int_of_float_def py_eq_int_float_def)
  have s: "py_str (\<lambda>x. []) (PyInt 700) = ''700''"
    by (simp add: py_str_def py_str_int_def digits_of_nat.simps digit_char_def)
  have tda: "build_option_symbol_for_tda (\<lambda>x. []) ''FB'' (ExpiryStr ''090321'') ''Call''
     (PyInt 700) ''underscore'' = Inr ''FB_090321C700''"
    by (simp add: build_option_symbol_for_tda_def f i s py_lower_def py_lower_char_def
        ascii_lowercase_def ascii_uppercase_def)
  note t = option_type_letter [of "\<lambda>x. []" "''FB''" "ExpiryStr ''210903''" "''cal''" "PyInt 700"
      False "''cal''" "''underscore''"]
  from t have occ: "build_option_symbol (\<lambda>x. []) ''FB'' (ExpiryStr ''210903'') ''cal'' (PyInt 700)
      False = Inr ''FB210903P00700000''"
    by blast
  with t obtain a b where "strike_digits (\<lambda>x. []) (PyInt 700) = Inr (a, b)"
    and "''FB210903P00700000'' = (if False then ''O:'' else []) @ py_upper ''FB'' @
             (case ExpiryStr ''210903'' of ExpiryDate dt \<Rightarrow> strftime_yymmdd dt | ExpiryStr s \<Rightarrow> s) @
             (if py_lower ''cal'' = ''c'' \<or> py_lower ''cal'' = ''call'' then ''C'' else ''P'') @ a @ b"
    by blast
  then have "strike_digits (\<lambda>x. []) (PyInt 700) = Inr (''00700'', ''000'')"
    by (simp add: strike_digits_int py_str_int_def digits_of_nat.simps digit_char_def
        replicate_small)
  with occ tda show ?thesis by blast
qed

text \<open>
  C4, as the code has it. When the text of the strike is \<open>ip.fp\<close> (one point), the strike
  field is \<open>ip\<close> padded with zeros on the left to 5 characters, followed by \<open>fp\<close> padded
  with zeros on the right or cut (never rounded) to exactly 3 characters; the field has 8
  characters when \<open>ip\<close> has at most 5. An integer strike from 0 to 99999 gives its 5
  digits, padded with zeros on the left, followed by \<^verbatim>\<open>000\<close>. So 145 gives \<^verbatim>\<open>00145000\<close>, and
  15.0034 (whose text is \<^verbatim>\<open>15.0034\<close>) gives \<^verbatim>\<open>00015003\<close>. The integer part is padded and
  never cut: the claim fails for the strikes of 6 digits and more, as the counterexample
  below shows.
\<close>

theorem strike_digits_spec:
  "(py_str fs k = ip @ CHR ''.'' # fp \<and> CHR ''.'' \<notin> set ip \<and> CHR ''.'' \<notin> set fp \<longrightarrow>
      strike_digits fs k =
        Inr (replicate (5 - length ip) CHR ''0'' @ ip,
             take 3 (fp @ replicate (3 - length fp) CHR ''0'')) \<and>
      length (take 3 (fp @ replicate (3 - length fp) CHR ''0'')) = 3 \<and>
      (length ip \<le> 5 \<longrightarrow> length (replicate (5 - length ip) CHR ''0'' @ ip) = 5)) \<and>
   (0 \<le> n \<and> n < 100000 \<longrightarrow>
      (\<exists>a. strike_digits fs (PyInt n) = Inr (a, ''000'') \<and> length a = 5 \<and>
           list_all py_isdigit a \<and> nat_of_digits a = nat n)) \<and>
   strike_digits fs (PyInt 145) = Inr (''00145'', ''000'') \<and>
   (fs x = ''15.0034'' \<longrightarrow> strike_digits fs (PyFloat x) = Inr (''00015'', ''003''))"
proof (intro conjI impI)
  assume "py_str fs k = ip @ CHR ''.'' # fp \<and> CHR ''.'' \<notin> set ip \<and> CHR ''.'' \<notin> set fp"
  then show "strike_digits fs k =
        Inr (replicate (5 - length ip) CHR ''0'' @ ip,
             take 3 (fp @ replicate (3 - length fp) CHR ''0''))"
    by (simp add: strike_digits_point)
next
  show "length (take 3 (fp @ replicate (3 - length fp) CHR ''0'')) = 3"
    by simp
next
  assume "length ip \<le> 5"
  then show "length (replicate (5 - length ip) CHR ''0'' @ ip) = 5"
    by simp
next
  assume n: "0 \<le> n \<and> n < 100000"
  define ds where "ds = digits_of_nat (nat n)"
  have "nat n < 100000" using n by linarith
  then have "nat n < 10 ^ 5" by simp
  then have len: "length ds \<le> 5"
    unfolding ds_def by (intro length_digits_of_nat) simp_all
  have str: "py_str_int n = ds"
    using n by (simp add: py_str_int_def ds_def)
  have dig: "list_all py_isdigit ds"
    by (simp add: ds_def digits_of_nat_isdigit)
  have val: "nat_of_digits ds = nat n"
    by (simp add: ds_def nat_of_digits_of_nat)
  let ?a = "replicate (5 - length ds) CHR ''0'' @ ds"
  have "strike_digits fs (PyInt n) = Inr (?a, ''000'')"
    by (simp add: strike_digits_int str)
  moreover have "length ?a = 5" using len by simp
  moreover have "list_all py_isdigit ?a"
    using dig by (auto simp: list_all_iff isdigit_zero)
  moreover have "nat_of_digits ?a = nat n"
    by (simp add: nat_of_digits_pad val)
  ultimately show "\<exists>a. strike_digits fs (PyInt n) = Inr (a, ''000'') \<and> length a = 5 \<and>
           list_all py_isdigit a \<and> nat_of_digits a = nat n"
    by blast
next
  show "strike_digits fs (PyInt 145) = Inr (''00145'', ''000'')"
    by (simp add: strike_digits_int py_str_int_def digits_of_nat.simps digit_char_def
        replicate_small)
next
  assume "fs x = ''15.0034''"
  then show "strike_digits fs (PyFloat x) = Inr (''00015'', ''003'')"
    using strike_digits_point [of fs "PyFloat x" "''15''" "''0034''"]
    by (simp add: py_str_def replicate_small)
qed

theorem strike_digits_spec_witness:
  "py_str (\<lambda>x. ''15.0034'') (PyFloat (Finite (75017 / 5000))) = ''15'' @ CHR ''.'' # ''0034'' \<and>
   CHR ''.'' \<notin> set ''15'' \<and> CHR ''.'' \<notin> set ''0034'' \<and> length ''15'' \<le> 5 \<and>
   (0::int) \<le> 145 \<and> (145::int) < 100000 \<and>
   strike_digits (\<lambda>x. ''15.0034'') (PyFloat (Finite (75017 / 5000))) = Inr (''00015'', ''003'') \<and>
   strike_digits (\<lambda>x. ''15.0034'') (PyInt 145) = Inr (''00145'', ''000'')"
  using strike_digits_spec [of "\<lambda>x. ''15.0034''" "PyFloat (Finite (75017 / 5000))" "''15''" "''0034''"
      145 "Finite (75017 / 5000)"]
  by (simp add: py_str_def replicate_small)

text \<open>
  The strike 123456 gives a strike field of 9 characters.
\<close>

theorem strike_digits_counterexample:
  "(\<forall>fs. build_option_symbol fs ''FB'' (ExpiryStr ''210903'') ''c'' (PyInt 123456) False =
      Inr ''FB210903C123456000'') \<and>
   (\<forall>fs. strike_digits fs (PyInt 123456) = Inr (''123456'', ''000'')) \<and>
   length (''123456'' @ ''000'') = 9"
proof -
  have k: "strike_digits fs (PyInt 123456) = Inr (''123456'', ''000'')" for fs
    by (simp add: strike_digits_int py_str_int_def digits_of_nat.simps digit_char_def)
  show ?thesis
    by (simp add: build_option_symbol_def k py_lower_def py_lower_char_def py_upper_def
        py_upper_char_def ascii_lowercase_def ascii_uppercase_def)
qed

section \<open>Claims about parsing option symbols\<close>

text \<open>
  C2, as the code has it. \<open>parse_option_symbol\<close> has no check of the length of its
  own. Every ASCII input with fewer than 8 characters after the marker \<^verbatim>\<open>O:\<close> fails, with
  the \<^verbatim>\<open>ValueError\<close> or \<^verbatim>\<open>IndexError\<close> of the first conversion or index that fails. An
  input of 8 to 14 characters after the marker is not rejected for its length, as the
  counterexample below shows.
\<close>

theorem parse_option_symbol_short:
  "py_isascii s \<and> py_isascii Y \<and>
   length (if py_startswith s ''O:'' then drop 2 s else s) < 8 \<longrightarrow>
     parse_option_symbol Y s = Inl ValueError \<or> parse_option_symbol Y s = Inl IndexError"
  using parse_short_fails by blast

theorem parse_option_symbol_short_witness:
  "py_isascii ''TSLA'' \<and> py_isascii ''2026'' \<and>
   length (if py_startswith ''TSLA'' ''O:'' then drop 2 ''TSLA'' else ''TSLA'') < 8 \<and>
   parse_option_symbol ''2026'' ''TSLA'' = Inl ValueError"
proof -
  have y: "py_int_of_str ''20TS'' = Inl ValueError" by code_simp
  have "parse_option_symbol ''2026'' ''TSLA'' \<noteq> Inl IndexError"
    by (simp add: parse_option_symbol_def OptionSymbol_polygon_def py_startswith_def
        py_slice_def y)
  with parse_option_symbol_short [of "''TSLA''" "''2026''"] show ?thesis
    by (simp add: py_startswith_def py_isascii_def)
qed

text \<open>
  The symbol \<^verbatim>\<open>211015P125\<close> has 10 characters and parses: the underlying is empty, the
  expiry is 2021-10-15, the type is \<^verbatim>\<open>P\<close> and the strike is 0.125.
\<close>

theorem parse_short_counterexample:
  "length ''211015P125'' = 10 \<and>
   parse_option_symbol ''2026'' ''211015P125'' =
     Inr \<lparr>underlying_symbol = [], raw_expiry = ''211015'',
          expiry = \<lparr>year = 2021, month = 10, day = 15\<rparr>, call_or_put = ''P'',
          strike_price = PyFloat (Finite (1 / 8)), option_symbol = ''211015P125''\<rparr>"
proof -
  have y: "py_int_of_str ''2021'' = Inr 2021" and m: "py_int_of_str ''10'' = Inr 10"
    and d: "py_int_of_str ''15'' = Inr 15" and n: "py_int_of_str ''125'' = Inr 125"
    by (simp_all add: int_of_digits)
  have dt: "py_date 2021 10 15 = Inr \<lparr>year = 2021, month = 10, day = 15\<rparr>"
    by (simp add: py_date_def valid_date_def days_in_month_def)
  have x: "py_truediv 125 1000 = Inr (Finite (1 / 8))"
    using float_of_rat_eighths [of 1] by (simp add: py_truediv_def)
  show ?thesis
    by (simp add: parse_option_symbol_def OptionSymbol_polygon_def py_startswith_def
        py_slice_def py_index_def y m d dt n x py_upper_def py_upper_char_def
        ascii_lowercase_def ascii_uppercase_def)
qed

text \<open>
  C9, as the code has it. For an ASCII symbol that parses and is, after the marker, an
  underlying followed by 6 expiry characters, the type letter and 8 digits, the strike
  price is the Python \<^verbatim>\<open>float\<close> that true division of the 8-digit integer by 1000
  returns: the binary64 number nearest to the quotient, which is finite. It is the exact
  quotient when the quotient is a binary fraction, as for every multiple of 0.125, and
  not in general.
\<close>

theorem strike_price_decoding:
  "py_isascii s \<and> py_isascii Y \<and>
   (if py_startswith s ''O:'' then drop 2 s else s) = U @ E @ t # D \<and> length E = 6 \<and>
   length D = 8 \<and> list_all py_isdigit D \<and> parse_option_symbol Y s = Inr r \<longrightarrow>
     strike_price r = PyFloat (float_of_rat (of_nat (nat_of_digits D) / 1000)) \<and>
     (\<exists>x. float_of_rat (of_nat (nat_of_digits D) / 1000) = Finite x) \<and>
     (125 dvd nat_of_digits D \<longrightarrow>
        strike_price r = PyFloat (Finite (of_nat (nat_of_digits D) / 1000)))"
proof (intro impI conjI)
  assume a: "py_isascii s \<and> py_isascii Y \<and>
   (if py_startswith s ''O:'' then drop 2 s else s) = U @ E @ t # D \<and> length E = 6 \<and>
   length D = 8 \<and> list_all py_isdigit D \<and> parse_option_symbol Y s = Inr r"
  then have k: "strike_price r = PyFloat (float_of_rat (of_nat (nat_of_digits D) / 1000))"
    and f: "\<exists>x. float_of_rat (of_nat (nat_of_digits D) / 1000) = Finite x"
    using strike_of_shape [of s U E t D Y r] by simp_all
  from k show "strike_price r = PyFloat (float_of_rat (of_nat (nat_of_digits D) / 1000))" .
  from f show "\<exists>x. float_of_rat (of_nat (nat_of_digits D) / 1000) = Finite x" .
  assume "125 dvd nat_of_digits D"
  then obtain j where j: "nat_of_digits D = 125 * j" ..
  have "nat_of_digits D < 10 ^ 8"
    using a nat_of_digits_bound [of D] by auto
  with j have "int j < 2 ^ 53" by simp
  then have "float_of_rat (of_int (int j) / 8) = Finite (of_int (int j) / 8)"
    by (intro float_of_rat_eighths) simp_all
  moreover have "(of_nat (nat_of_digits D) / 1000 :: rat) = of_int (int j) / 8"
    by (simp add: j)
  ultimately show "strike_price r = PyFloat (Finite (of_nat (nat_of_digits D) / 1000))"
    using k by simp
qed

theorem strike_price_decoding_witness:
  "parse_option_symbol ''2026'' ''O:TSLA211015P00125000'' =
     Inr \<lparr>underlying_symbol = ''TSLA'', raw_expiry = ''211015'',
          expiry = \<lparr>year = 2021, month = 10, day = 15\<rparr>, call_or_put = ''P'',
          strike_price = PyFloat (Finite 125), option_symbol = ''TSLA211015P00125000''\<rparr> \<and>
   list_all py_isdigit ''00125000'' \<and> 125 dvd nat_of_digits ''00125000'' \<and>
   strike_price \<lparr>underlying_symbol = ''TSLA'', raw_expiry = ''211015'',
          expiry = \<lparr>year = 2021, month = 10, day = 15\<rparr>, call_or_put = ''P'',
          strike_price = PyFloat (Finite 125), option_symbol = ''TSLA211015P00125000''\<rparr> =
     PyFloat (Finite (of_nat (nat_of_digits ''00125000'') / 1000))"
proof -
  let ?r = "\<lparr>underlying_symbol = ''TSLA'', raw_expiry = ''211015'',
          expiry = \<lparr>year = 2021, month = 10, day = 15\<rparr>, call_or_put = ''P'',
          strike_price = PyFloat (Finite 125), option_symbol = ''TSLA211015P00125000''\<rparr>"
  have y: "py_int_of_str ''2021'' = Inr 2021" and m: "py_int_of_str ''10'' = Inr 10"
    and d: "py_int_of_str ''15'' = Inr 15" and n: "py_int_of_str ''00125000'' = Inr 125000"
    by (simp_all add: int_of_digits)
  have dt: "py_date 2021 10 15 = Inr \<lparr>year = 2021, month = 10, day = 15\<rparr>"
    by (simp add: py_date_def valid_date_def days_in_month_def)
  have x: "py_truediv 125000 1000 = Inr (Finite 125)"
    using py_truediv_exact_int [of 125] by simp
  have "parse_option_symbol ''2026'' ''O:TSLA211015P00125000'' =
     Inr \<lparr>underlying_symbol = filter (\<lambda>x. \<not> py_isdigit x) ''TSLA'', raw_expiry = ''211015'',
          expiry = \<lparr>year = 2021, month = 10, day = 15\<rparr>, call_or_put = py_upper ''P'',
          strike_price = PyFloat (Finite 125),
          option_symbol = filter (\<lambda>x. \<not> py_isdigit x) ''TSLA'' @ ''211015'' @ CHR ''P'' # ''00125000''\<rparr>"
    by (rule parse_option_symbol_eval [where y = 2021 and m = 10 and d = 15 and n = 125000])
       (simp_all add: py_startswith_def py_slice_def y m d dt n x)
  then have p: "parse_option_symbol ''2026'' ''O:TSLA211015P00125000'' = Inr ?r"
    by (simp add: py_isdigit_def py_upper_def py_upper_char_def ascii_lowercase_def
        ascii_uppercase_def)
  have dig: "list_all py_isdigit ''00125000''" by (simp add: py_isdigit_def)
  have val: "nat_of_digits ''00125000'' = 125000"
    by (simp add: nat_of_digits_def digit_val_def upt_conv_Cons)
  have dv: "125 dvd nat_of_digits ''00125000''" by (simp add: val)
  have "(if py_startswith ''O:TSLA211015P00125000'' ''O:'' then drop 2 ''O:TSLA211015P00125000''
        else ''O:TSLA211015P00125000'') = ''TSLA'' @ ''211015'' @ CHR ''P'' # ''00125000''"
    by (simp add: py_startswith_def)
  moreover have "py_isascii ''O:TSLA211015P00125000''" "py_isascii ''2026''"
    by (simp_all add: py_isascii_def)
  ultimately
  have "strike_price ?r = PyFloat (Finite (of_nat (nat_of_digits ''00125000'') / 1000))"
    using strike_price_decoding [of "''O:TSLA211015P00125000''" "''2026''" "''TSLA''" "''211015''"
      "CHR ''P''" "''00125000''" ?r] p dig dv
    by simp
  with p dig dv show ?thesis by blast
qed

text \<open>
  The strike of \<^verbatim>\<open>FB210903C00000001\<close> is the float \<^verbatim>\<open>0.001\<close>, which is not the rational
  1/1000.
\<close>

theorem strike_price_counterexample:
  "parse_option_symbol ''2026'' ''FB210903C00000001'' =
     Inr \<lparr>underlying_symbol = ''FB'', raw_expiry = ''210903'',
          expiry = \<lparr>year = 2021, month = 9, day = 3\<rparr>, call_or_put = ''C'',
          strike_price = PyFloat (Finite (1152921504606847 / 1152921504606846976)),
          option_symbol = ''FB210903C00000001''\<rparr> \<and>
   (1152921504606847 / 1152921504606846976 :: rat) \<noteq> 1 / 1000"
proof -
  have y: "py_int_of_str ''2021'' = Inr 2021" and m: "py_int_of_str ''09'' = Inr 9"
    and d: "py_int_of_str ''03'' = Inr 3" and n: "py_int_of_str ''00000001'' = Inr 1"
    by (simp_all add: int_of_digits)
  have dt: "py_date 2021 9 3 = Inr \<lparr>year = 2021, month = 9, day = 3\<rparr>"
    by (simp add: py_date_def valid_date_def days_in_month_def)
  have x: "py_truediv 1 1000 = Inr (Finite (1152921504606847 / 1152921504606846976))"
    by (simp add: py_truediv_def float_of_rat_thousandth)
  have "parse_option_symbol ''2026'' ''FB210903C00000001'' =
     Inr \<lparr>underlying_symbol = filter (\<lambda>x. \<not> py_isdigit x) ''FB'', raw_expiry = ''210903'',
          expiry = \<lparr>year = 2021, month = 9, day = 3\<rparr>, call_or_put = py_upper ''C'',
          strike_price = PyFloat (Finite (1152921504606847 / 1152921504606846976)),
          option_symbol = filter (\<lambda>x. \<not> py_isdigit x) ''FB'' @ ''210903'' @ CHR ''C'' # ''00000001''\<rparr>"
    by (rule parse_option_symbol_eval [where y = 2021 and m = 9 and d = 3 and n = 1])
       (simp_all add: py_startswith_def py_slice_def y m d dt n x)
  then show ?thesis
    by (simp add: py_isdigit_def py_upper_def py_upper_char_def ascii_lowercase_def
        ascii_uppercase_def)
qed




section \<open>Claims about the TD Ameritrade format\<close>




end
